theory Spec2Isabelle
  imports Complex_Main
begin

section \<open>CBOM comparison analyzer: the normalizer, the aggregator and the export\<close>

text \<open>
  This theory embeds the analysis core of \<^verbatim>\<open>src/cbom_analyzer.py\<close> (class
  \<^verbatim>\<open>CBOMComparisonAnalyzer\<close>): the extraction and tally of components of one CBOM
  payload, the batch loop over the files of every tool, the join with metrics and
  repository sizes, the exact part of the per-tool statistics and the flattening of the
  type counters into columns with its inverse.
\<close>

subsection \<open>JSON values as Python sees them\<close>

text \<open>
  A value loaded by \<^verbatim>\<open>json.load\<close>. An object is a Python dict: an association list in
  insertion order, whose keys are distinct for every value the parser builds. A string is
  a list of code points below 256. A float is kept by its value; the literals
  \<^verbatim>\<open>NaN\<close> and \<^verbatim>\<open>Infinity\<close> that Python's parser accepts are left out.
\<close>

datatype json =
    JNull
  | JBool bool
  | JInt int
  | JFloat rat
  | JStr string
  | JArr "json list"
  | JObj "(string \<times> json) list"

datatype pytype = PyNone | PyBool | PyInt | PyFloat | PyStr | PyList | PyDict

text \<open>
  The exceptions the analysis can meet. \<open>ReadFailure\<close> stands for whatever
  \<^verbatim>\<open>open\<close> or \<^verbatim>\<open>json.load\<close> raised on a file, with its message.
\<close>

datatype py_error =
    NotIterable pytype
  | NoAttribute pytype string
  | Unhashable pytype
  | NotSubscriptable pytype
  | NotOrderable pytype
  | IndexError
  | KeyError
  | ReadFailure string

fun py_type :: "json \<Rightarrow> pytype" where
  "py_type JNull = PyNone"
| "py_type (JBool _) = PyBool"
| "py_type (JInt _) = PyInt"
| "py_type (JFloat _) = PyFloat"
| "py_type (JStr _) = PyStr"
| "py_type (JArr _) = PyList"
| "py_type (JObj _) = PyDict"

definition isinstance_dict :: "json \<Rightarrow> bool" where
  "isinstance_dict v = (py_type v = PyDict)"

definition isinstance_list :: "json \<Rightarrow> bool" where
  "isinstance_list v = (py_type v = PyList)"

text \<open>Truth value of a Python object, as \<^verbatim>\<open>if x\<close> and \<^verbatim>\<open>x and y\<close> test it.\<close>

fun truthy :: "json \<Rightarrow> bool" where
  "truthy JNull = False"
| "truthy (JBool b) = b"
| "truthy (JInt i) = (i \<noteq> 0)"
| "truthy (JFloat r) = (r \<noteq> 0)"
| "truthy (JStr s) = (s \<noteq> [])"
| "truthy (JArr xs) = (xs \<noteq> [])"
| "truthy (JObj kvs) = (kvs \<noteq> [])"

text \<open>\<^verbatim>\<open>v.get(k, d)\<close>: only a dict has the method.\<close>

fun py_get :: "json \<Rightarrow> string \<Rightarrow> json \<Rightarrow> py_error + json" where
  "py_get (JObj kvs) k d = Inr (case map_of kvs k of Some v \<Rightarrow> v | None \<Rightarrow> d)"
| "py_get v k d = Inl (NoAttribute (py_type v) ''get'')"

text \<open>\<^verbatim>\<open>v[0]\<close>. A dict loaded from JSON has string keys only, so \<open>0\<close> is never a key.\<close>

fun py_index0 :: "json \<Rightarrow> py_error + json" where
  "py_index0 (JArr []) = Inl IndexError"
| "py_index0 (JArr (x # xs)) = Inr x"
| "py_index0 (JStr []) = Inl IndexError"
| "py_index0 (JStr (c # cs)) = Inr (JStr [c])"
| "py_index0 (JObj kvs) = Inl KeyError"
| "py_index0 v = Inl (NotSubscriptable (py_type v))"

text \<open>
  \<^verbatim>\<open>for x in v\<close>: a list gives its elements, a string its characters, a dict its keys;
  nothing else is iterable. \<^verbatim>\<open>len(v)\<close> is defined on the same values.
\<close>

fun py_iter :: "json \<Rightarrow> py_error + json list" where
  "py_iter (JArr xs) = Inr xs"
| "py_iter (JStr s) = Inr (map (\<lambda>c. JStr [c]) s)"
| "py_iter (JObj kvs) = Inr (map (\<lambda>kv. JStr (fst kv)) kvs)"
| "py_iter v = Inl (NotIterable (py_type v))"

fun py_len :: "json \<Rightarrow> py_error + int" where
  "py_len (JArr xs) = Inr (int (length xs))"
| "py_len (JStr s) = Inr (int (length s))"
| "py_len (JObj kvs) = Inr (int (length kvs))"
| "py_len v = Inl (NotIterable (py_type v))"

text \<open>\<^verbatim>\<open>str.lower\<close> on code points below 256: A-Z and the Latin-1 capitals move by 32.\<close>

definition lower_char :: "char \<Rightarrow> char" where
  "lower_char c =
     (let n = (of_char c :: nat)
      in if (65 \<le> n \<and> n \<le> 90) \<or> (192 \<le> n \<and> n \<le> 222 \<and> n \<noteq> 215)
         then char_of (n + 32) else c)"

definition lower :: "string \<Rightarrow> string" where
  "lower s = map lower_char s"

subsection \<open>Counters\<close>

text \<open>
  A \<^verbatim>\<open>collections.Counter\<close>: a dict from hashable keys to counts, in insertion
  order. Python compares and hashes \<^verbatim>\<open>True\<close>, \<^verbatim>\<open>1\<close> and \<^verbatim>\<open>1.0\<close> as one key, and a
  dict keeps the key object that was inserted first.
\<close>

type_synonym counter = "(json \<times> int) list"

fun num_val :: "json \<Rightarrow> rat option" where
  "num_val (JBool b) = Some (if b then 1 else 0)"
| "num_val (JInt i) = Some (of_int i)"
| "num_val (JFloat r) = Some r"
| "num_val v = None"

definition py_eq :: "json \<Rightarrow> json \<Rightarrow> bool" where
  "py_eq a b =
     (case num_val a of
        Some x \<Rightarrow> (case num_val b of Some y \<Rightarrow> x = y | None \<Rightarrow> False)
      | None \<Rightarrow> (case num_val b of Some y \<Rightarrow> False | None \<Rightarrow> a = b))"

definition hashable :: "json \<Rightarrow> bool" where
  "hashable v = (py_type v \<noteq> PyList \<and> py_type v \<noteq> PyDict)"

text \<open>\<^verbatim>\<open>c[k] += n\<close> on a counter whose key \<open>k\<close> is hashable.\<close>

fun counter_add :: "json \<Rightarrow> int \<Rightarrow> counter \<Rightarrow> counter" where
  "counter_add k n [] = [(k, n)]"
| "counter_add k n ((k', m) # c) =
     (if py_eq k k' then (k', m + n) # c else (k', m) # counter_add k n c)"

definition counter_incr :: "json \<Rightarrow> counter \<Rightarrow> py_error + counter" where
  "counter_incr k c =
     (if hashable k then Inr (counter_add k 1 c) else Inl (Unhashable (py_type k)))"

definition counter_total :: "counter \<Rightarrow> int" where
  "counter_total c = sum_list (map snd c)"

subsection \<open>The normalizer: \<^verbatim>\<open>analyze_single_cbom\<close>\<close>

text \<open>
  The result dict of one analysis. The key \<^verbatim>\<open>'error'\<close> exists only in the record that
  \<^verbatim>\<open>analyze_all_cboms\<close> stores after an exception, where it holds \<^verbatim>\<open>str(e)\<close>; the
  model keeps the exception \<open>e\<close> itself.
\<close>

record analysis =
  total_components :: int
  is_empty :: bool
  component_types :: counter
  error :: "py_error option"

definition is_cdx_like :: "string \<Rightarrow> bool" where
  "is_cdx_like tool_name = (lower tool_name \<in> {''cdxgen'', ''deepseek''})"

text \<open>The body of the \<^verbatim>\<open>try\<close> block of the cbomkit branch (lines 138 to 141).\<close>

definition cbomkit_try :: "json \<Rightarrow> py_error + json" where
  "cbomkit_try cbom_data =
     (if isinstance_list cbom_data \<and> truthy cbom_data then
        (case py_index0 cbom_data of
           Inl e \<Rightarrow> Inl e
         | Inr x \<Rightarrow>
             (case (if isinstance_dict x then py_get x ''bom'' JNull else Inr JNull) of
                Inl e \<Rightarrow> Inl e
              | Inr bom \<Rightarrow>
                  if truthy bom \<and> isinstance_dict bom
                  then py_get bom ''components'' (JArr [])
                  else Inr (JArr [])))
      else Inr (JArr []))"

text \<open>The handler of that block (lines 142 to 145).\<close>

definition cbomkit_except :: "json \<Rightarrow> py_error + json" where
  "cbomkit_except cbom_data =
     (if isinstance_dict cbom_data then py_get cbom_data ''components'' (JArr [])
      else Inr (JArr []))"

text \<open>Lines 129 to 145: the value bound to \<^verbatim>\<open>components\<close> when the loop starts.\<close>

definition extract_components :: "json \<Rightarrow> string \<Rightarrow> py_error + json" where
  "extract_components cbom_data tool_name =
     (if is_cdx_like tool_name then
        (if isinstance_dict cbom_data then py_get cbom_data ''components'' (JArr [])
         else Inr (JArr []))
      else
        (case cbomkit_try cbom_data of
           Inr components \<Rightarrow> Inr components
         | Inl e \<Rightarrow> cbomkit_except cbom_data))"

text \<open>Lines 150 to 154: the type of one component, before it is used as a key.\<close>

definition comp_type :: "string \<Rightarrow> json \<Rightarrow> py_error + json" where
  "comp_type tool_name component =
     (if \<not> is_cdx_like tool_name \<and> isinstance_dict component then
        (case py_get component ''cryptoProperties'' (JObj []) of
           Inl e \<Rightarrow> Inl e
         | Inr crypto_props \<Rightarrow>
             (if \<not> isinstance_dict crypto_props
              then Inl (NoAttribute (py_type crypto_props) ''get'')
              else (case py_get component ''type'' (JStr ''unknown'') of
                      Inl e \<Rightarrow> Inl e
                    | Inr dflt \<Rightarrow> py_get crypto_props ''assetType'' dflt)))
      else
        (if isinstance_dict component then py_get component ''type'' (JStr ''unknown'')
         else Inr (JStr ''unknown'')))"

text \<open>Lines 147 to 155: the loop over the components.\<close>

fun tally :: "string \<Rightarrow> json list \<Rightarrow> counter \<Rightarrow> py_error + counter" where
  "tally tool_name [] c = Inr c"
| "tally tool_name (component # comps) c =
     (case comp_type tool_name component of
        Inl e \<Rightarrow> Inl e
      | Inr k \<Rightarrow>
          (case counter_incr k c of
             Inl e \<Rightarrow> Inl e
           | Inr c' \<Rightarrow> tally tool_name comps c'))"

definition analyze_single_cbom :: "json \<Rightarrow> string \<Rightarrow> py_error + analysis" where
  "analyze_single_cbom cbom_data tool_name =
     (case extract_components cbom_data tool_name of
        Inl e \<Rightarrow> Inl e
      | Inr components \<Rightarrow>
          (case py_iter components of
             Inl e \<Rightarrow> Inl e
           | Inr comps \<Rightarrow>
               (case tally tool_name comps [] of
                  Inl e \<Rightarrow> Inl e
                | Inr ctypes \<Rightarrow>
                    (case py_len components of
                       Inl e \<Rightarrow> Inl e
                     | Inr n \<Rightarrow>
                         Inr \<lparr>total_components = n, is_empty = (n = 0),
                              component_types = ctypes, error = None\<rparr>))))"

text \<open>Lines 108 to 113: the record stored when a file could not be analysed.\<close>

definition error_record :: "py_error \<Rightarrow> analysis" where
  "error_record e =
     \<lparr>total_components = 0, is_empty = True, component_types = [], error = Some e\<rparr>"

subsection \<open>The batch loop: \<^verbatim>\<open>analyze_all_cboms\<close>\<close>

definition TOOL_NAMES :: "string list" where
  "TOOL_NAMES = [''cbomkit'', ''cdxgen'', ''deepseek'']"

text \<open>\<^verbatim>\<open>s.endswith(t)\<close> and \<^verbatim>\<open>s.startswith(t)\<close>.\<close>

definition endswith :: "string \<Rightarrow> string \<Rightarrow> bool" where
  "endswith s t = (length t \<le> length s \<and> drop (length s - length t) s = t)"

definition startswith :: "string \<Rightarrow> string \<Rightarrow> bool" where
  "startswith s t = (take (length t) s = t)"

text \<open>
  \<^verbatim>\<open>os.path.splitext(p)[0]\<close> for a name from \<^verbatim>\<open>os.listdir\<close>, which holds no
  directory separator: the extension starts at the last dot, unless nothing but dots
  comes before that dot.
\<close>

definition splitext_root :: "string \<Rightarrow> string" where
  "splitext_root p =
     (let n = length (takeWhile (\<lambda>c. c \<noteq> CHR ''.'') (rev p))
      in if n = length p then p
         else (let dotIndex = length p - n - 1
               in if list_all (\<lambda>c. c = CHR ''.'') (take dotIndex p) then p
                  else take dotIndex p))"

text \<open>
  \<^verbatim>\<open>self.comparison_data\<close>: a dict from repository names to dicts from tool names to
  analysis results. \<^verbatim>\<open>d[k] = v\<close> keeps the place of a key that is there and appends a
  new one.
\<close>

type_synonym comparison_data = "(string \<times> (string \<times> analysis) list) list"

fun dict_set :: "'k \<Rightarrow> 'v \<Rightarrow> ('k \<times> 'v) list \<Rightarrow> ('k \<times> 'v) list" where
  "dict_set k v [] = [(k, v)]"
| "dict_set k v ((k', v') # d) =
     (if k = k' then (k', v) # d else (k', v') # dict_set k v d)"

text \<open>\<^verbatim>\<open>self.comparison_data[repo_name][tool] = a\<close> on the nested default dict.\<close>

definition store :: "comparison_data \<Rightarrow> string \<Rightarrow> string \<Rightarrow> analysis \<Rightarrow> comparison_data" where
  "store cd repo_name tool a =
     dict_set repo_name
       (dict_set tool a (case map_of cd repo_name of Some tools_data \<Rightarrow> tools_data | None \<Rightarrow> []))
       cd"

definition lookup2 :: "comparison_data \<Rightarrow> string \<Rightarrow> string \<Rightarrow> analysis option" where
  "lookup2 cd repo_name tool =
     (case map_of cd repo_name of None \<Rightarrow> None | Some tools_data \<Rightarrow> map_of tools_data tool)"

text \<open>
  What reading one file gave: \<open>Inl\<close> when \<^verbatim>\<open>open\<close> or \<^verbatim>\<open>json.load\<close> raised, the
  parsed payload otherwise. The \<^verbatim>\<open>try\<close> block of lines 100 to 103 is \<open>try_body\<close>;
  \<open>stored_record\<close> is the value that lines 104 or 108 put into
  \<^verbatim>\<open>self.comparison_data\<close>.
\<close>

type_synonym outcome = "py_error + json"

definition try_body :: "string \<Rightarrow> outcome \<Rightarrow> py_error + analysis" where
  "try_body tool outcome =
     (case outcome of Inl e \<Rightarrow> Inl e | Inr cbom_data \<Rightarrow> analyze_single_cbom cbom_data tool)"

definition stored_record :: "string \<Rightarrow> outcome \<Rightarrow> analysis" where
  "stored_record tool outcome =
     (case try_body tool outcome of Inr a \<Rightarrow> a | Inl e \<Rightarrow> error_record e)"

text \<open>Lines 96 to 113: the loop over the files of one tool.\<close>

fun analyze_files :: "string \<Rightarrow> (string \<times> outcome) list \<Rightarrow> comparison_data \<Rightarrow> comparison_data" where
  "analyze_files tool [] cd = cd"
| "analyze_files tool ((cbom_file, outcome) # files) cd =
     analyze_files tool files
       (store cd (splitext_root cbom_file) tool (stored_record tool outcome))"

text \<open>
  The file system is an argument: \<open>listing tool\<close> is \<open>None\<close> when the directory of the
  tool does not exist, and otherwise the names \<^verbatim>\<open>os.listdir\<close> gives, each with the
  outcome of reading it.
\<close>

definition cbom_files :: "(string \<times> outcome) list \<Rightarrow> (string \<times> outcome) list" where
  "cbom_files files = filter (\<lambda>f. endswith (fst f) ''.json'') files"

definition analyze_all_cboms ::
  "string list \<Rightarrow> (string \<Rightarrow> (string \<times> outcome) list option) \<Rightarrow> comparison_data \<Rightarrow> comparison_data" where
  "analyze_all_cboms tools listing cd =
     fold (\<lambda>tool cd'. case listing tool of
                        None \<Rightarrow> cd'
                      | Some files \<Rightarrow> analyze_files tool (cbom_files files) cd')
          tools cd"

subsection \<open>The aggregator: the join of \<^verbatim>\<open>generate_comparison_report\<close>\<close>

text \<open>One flat record of \<^verbatim>\<open>results\<close>; \<open>JNull\<close> is Python's \<^verbatim>\<open>None\<close>.\<close>

record row =
  Repository :: string
  Tool :: string
  Total_Components :: int
  Is_Empty :: bool
  Execution_Time :: json
  Component_Types :: counter
  Repository_Size :: json
  Java_Size :: json

text \<open>Line 233: \<^verbatim>\<open>execution_times.get(repo_name, {}).get(tool, {}).get('duration')\<close>.\<close>

definition exec_time :: "json \<Rightarrow> string \<Rightarrow> string \<Rightarrow> py_error + json" where
  "exec_time execution_times repo_name tool =
     (case py_get execution_times repo_name (JObj []) of
        Inl e \<Rightarrow> Inl e
      | Inr by_tool \<Rightarrow>
          (case py_get by_tool tool (JObj []) of
             Inl e \<Rightarrow> Inl e
           | Inr metrics \<Rightarrow> py_get metrics ''duration'' JNull))"

text \<open>Lines 232 to 243: the rows of one repository.\<close>

fun tool_rows ::
  "json \<Rightarrow> string \<Rightarrow> json \<times> json \<Rightarrow> (string \<times> analysis) list \<Rightarrow> py_error + row list" where
  "tool_rows execution_times repo_name sizes [] = Inr []"
| "tool_rows execution_times repo_name sizes ((tool, data) # tools_data) =
     (case exec_time execution_times repo_name tool of
        Inl e \<Rightarrow> Inl e
      | Inr t \<Rightarrow>
          (case tool_rows execution_times repo_name sizes tools_data of
             Inl e \<Rightarrow> Inl e
           | Inr rest \<Rightarrow>
               Inr (\<lparr>Repository = repo_name, Tool = tool,
                      Total_Components = total_components data,
                      Is_Empty = is_empty data,
                      Execution_Time = t,
                      Component_Types = component_types data,
                      Repository_Size = fst sizes,
                      Java_Size = snd sizes\<rparr> # rest)))"

text \<open>
  Lines 228 to 243: the loop over \<^verbatim>\<open>self.comparison_data\<close>. The sizes fetched from
  GitHub are an argument, a dict from repository names to pairs.
\<close>

fun join_rows ::
  "comparison_data \<Rightarrow> json \<Rightarrow> (string \<rightharpoonup> json \<times> json) \<Rightarrow> py_error + row list" where
  "join_rows [] execution_times repo_sizes = Inr []"
| "join_rows ((repo_name, tools_data) # cd) execution_times repo_sizes =
     (case tool_rows execution_times repo_name
             (case repo_sizes repo_name of Some p \<Rightarrow> p | None \<Rightarrow> (JNull, JNull))
             tools_data of
        Inl e \<Rightarrow> Inl e
      | Inr rows \<Rightarrow>
          (case join_rows cd execution_times repo_sizes of
             Inl e \<Rightarrow> Inl e
           | Inr rest \<Rightarrow> Inr (rows @ rest)))"

text \<open>
  Line 199 of \<^verbatim>\<open>_fetch_all_repo_sizes\<close>, which reads the same metrics entries before
  the join does: the \<^verbatim>\<open>url\<close> of the first tool entry that is a dict, \<^verbatim>\<open>None\<close> when
  there is none. Entries that are not dicts are skipped by the \<^verbatim>\<open>isinstance\<close> guard.
\<close>

definition first_url :: "json \<Rightarrow> py_error + json" where
  "first_url repo_data =
     (case repo_data of
        JObj tools \<Rightarrow>
          (case filter isinstance_dict (map snd tools) of
             [] \<Rightarrow> Inr JNull
           | tool_data # rest \<Rightarrow> py_get tool_data ''url'' JNull)
      | _ \<Rightarrow> Inl (NoAttribute (py_type repo_data) ''values''))"

subsection \<open>The statistics calculator: \<^verbatim>\<open>_calculate_statistics\<close>\<close>

text \<open>
  \<^verbatim>\<open>Counter.update\<close> with another counter adds its counts key by key; an empty
  counter takes the other one over as it is.
\<close>

definition counter_update :: "counter \<Rightarrow> counter \<Rightarrow> counter" where
  "counter_update acc c =
     (if acc = [] then c else fold (\<lambda>kv a. counter_add (fst kv) (snd kv) a) c acc)"

text \<open>
  The entries of \<^verbatim>\<open>stats[tool]\<close> that are integers or counters. Percentages, means
  and the standard deviation are float64 values computed inside pandas and are not part
  of this record.
\<close>

record tool_stats =
  total_repos :: int
  empty_cboms :: int
  non_empty_cboms :: int
  stats_total_components :: int
  stats_component_types :: counter

definition tool_statistics :: "row list \<Rightarrow> tool_stats" where
  "tool_statistics tool_df =
     \<lparr>total_repos = int (length tool_df),
      empty_cboms = int (length (filter Is_Empty tool_df)),
      non_empty_cboms = int (length (filter (\<lambda>r. \<not> Is_Empty r) tool_df)),
      stats_total_components = sum_list (map Total_Components tool_df),
      stats_component_types = fold (\<lambda>r a. counter_update a (Component_Types r)) tool_df []\<rparr>"

definition calculate_statistics :: "string list \<Rightarrow> row list \<Rightarrow> (string \<times> tool_stats) list" where
  "calculate_statistics tools df =
     fold (\<lambda>tool stats.
             (let tool_df = filter (\<lambda>r. Tool r = tool) df
              in if tool_df = [] then stats
                 else dict_set tool (tool_statistics tool_df) stats))
          tools []"

subsection \<open>The shape rules as the specification words them\<close>

text \<open>
  The component list by tool-specific shape: the top-level \<^verbatim>\<open>components\<close> of a dict
  for cdxgen and deepseek; for any other tool the \<^verbatim>\<open>components\<close> of the dict under
  \<^verbatim>\<open>bom\<close> in the first element of a list; empty otherwise.
\<close>

definition components_by_shape :: "json \<Rightarrow> string \<Rightarrow> json" where
  "components_by_shape cbom_data tool_name =
     (if lower tool_name \<in> {''cdxgen'', ''deepseek''} then
        (case cbom_data of
           JObj kvs \<Rightarrow> (case map_of kvs ''components'' of Some v \<Rightarrow> v | None \<Rightarrow> JArr [])
         | _ \<Rightarrow> JArr [])
      else
        (case cbom_data of
           JArr (JObj kvs # rest) \<Rightarrow>
             (case map_of kvs ''bom'' of
                Some (JObj bom) \<Rightarrow>
                  (case map_of bom ''components'' of Some v \<Rightarrow> v | None \<Rightarrow> JArr [])
              | _ \<Rightarrow> JArr [])
         | _ \<Rightarrow> JArr []))"

text \<open>The components array of a payload that supplies one in the shape of its tool.\<close>

definition supplied_components :: "json \<Rightarrow> string \<Rightarrow> json list option" where
  "supplied_components cbom_data tool_name =
     (if lower tool_name \<in> {''cdxgen'', ''deepseek''} then
        (case cbom_data of
           JObj kvs \<Rightarrow> (case map_of kvs ''components'' of Some (JArr xs) \<Rightarrow> Some xs | _ \<Rightarrow> None)
         | _ \<Rightarrow> None)
      else
        (case cbom_data of
           JArr (JObj kvs # rest) \<Rightarrow>
             (case map_of kvs ''bom'' of
                Some (JObj bom) \<Rightarrow>
                  (case map_of bom ''components'' of Some (JArr xs) \<Rightarrow> Some xs | _ \<Rightarrow> None)
              | _ \<Rightarrow> None)
         | _ \<Rightarrow> None))"

text \<open>A component whose type the loop can count: the lookup succeeds and gives a hashable key.\<close>

definition tallies :: "string \<Rightarrow> json \<Rightarrow> bool" where
  "tallies tool_name component =
     (case comp_type tool_name component of Inr k \<Rightarrow> hashable k | Inl e \<Rightarrow> False)"

subsection \<open>Invariants and the join as the specification words it\<close>

text \<open>All analysis results held in \<^verbatim>\<open>self.comparison_data\<close>.\<close>

definition records_of :: "comparison_data \<Rightarrow> analysis list" where
  "records_of cd = concat (map (\<lambda>rt. map snd (snd rt)) cd)"

text \<open>The counts of the types add up to the number of components.\<close>

definition counts_consistent :: "analysis \<Rightarrow> bool" where
  "counts_consistent a = (counter_total (component_types a) = total_components a)"

text \<open>The (repository, tool) pairs of \<^verbatim>\<open>self.comparison_data\<close>, in iteration order.\<close>

definition pairs_of :: "comparison_data \<Rightarrow> (string \<times> string) list" where
  "pairs_of cd = concat (map (\<lambda>rt. map (\<lambda>ta. (fst rt, fst ta)) (snd rt)) cd)"

text \<open>A Python dict holds a key once: the outer dict and every inner dict.\<close>

definition dict_inv :: "comparison_data \<Rightarrow> bool" where
  "dict_inv cd = (distinct (map fst cd) \<and> list_all (\<lambda>rt. distinct (map fst (snd rt))) cd)"

text \<open>
  Metrics in which every entry is a dict: a dict from repository names to dicts from
  tool names to dicts. On such metrics no lookup of line 233 can raise; the code itself
  does not check the shape.
\<close>

definition metrics_shaped :: "json \<Rightarrow> bool" where
  "metrics_shaped execution_times =
     (case execution_times of
        JObj repos \<Rightarrow>
          list_all (\<lambda>re. case snd re of
                           JObj tools \<Rightarrow> list_all (\<lambda>te. isinstance_dict (snd te)) tools
                         | _ \<Rightarrow> False) repos
      | _ \<Rightarrow> False)"

text \<open>
  The \<^verbatim>\<open>duration\<close> of the metrics entry of a repository and a tool, when there is
  such an entry.
\<close>

definition metric_duration :: "json \<Rightarrow> string \<Rightarrow> string \<Rightarrow> json option" where
  "metric_duration execution_times repo_name tool =
     (case execution_times of
        JObj repos \<Rightarrow>
          (case map_of repos repo_name of
             Some (JObj tools) \<Rightarrow>
               (case map_of tools tool of
                  Some (JObj entry) \<Rightarrow> map_of entry ''duration''
                | _ \<Rightarrow> None)
           | _ \<Rightarrow> None)
      | _ \<Rightarrow> None)"

text \<open>
  The flat record of one (repository, tool) pair: the analysis, the duration when the
  metrics have one, the sizes when the lookup has the repository, \<^verbatim>\<open>None\<close> otherwise.
\<close>

definition joined_row :: "json \<Rightarrow> (string \<rightharpoonup> json \<times> json) \<Rightarrow> string \<Rightarrow> string \<times> analysis \<Rightarrow> row" where
  "joined_row execution_times repo_sizes repo_name ta =
     \<lparr>Repository = repo_name, Tool = fst ta,
      Total_Components = total_components (snd ta),
      Is_Empty = is_empty (snd ta),
      Execution_Time = (case metric_duration execution_times repo_name (fst ta) of
                          Some v \<Rightarrow> v | None \<Rightarrow> JNull),
      Component_Types = component_types (snd ta),
      Repository_Size = (case repo_sizes repo_name of Some p \<Rightarrow> fst p | None \<Rightarrow> JNull),
      Java_Size = (case repo_sizes repo_name of Some p \<Rightarrow> snd p | None \<Rightarrow> JNull)\<rparr>"

subsection \<open>An example directory tree\<close>

text \<open>
  Only cdxgen has a directory; its first file holds \<^verbatim>\<open>{"components": null}\<close>, on
  which the analysis raises, the second is no JSON file, the third holds one component.
\<close>

definition example_listing :: "string \<Rightarrow> (string \<times> outcome) list option" where
  "example_listing tool =
     (if tool = ''cdxgen''
      then Some [(''a.json'', Inr (JObj [(''components'', JNull)])),
                 (''notes.txt'', Inl (ReadFailure ''unused'')),
                 (''b.json'', Inr (JObj [(''components'', JArr [JObj [(''type'', JStr ''library'')]])]))]
      else None)"

text \<open>
  The text of numbers for examples in which no counter key is a number, so that it is
  never asked for.
\<close>

definition example_num_str :: "json \<Rightarrow> string" where
  "example_num_str v = []"

subsection \<open>The tabular export and its loader\<close>

text \<open>
  A data frame as the CSV file holds it: the column labels and, for every row, one cell
  per column. A cell is a scalar, or \<open>None\<close> for NaN (an empty field). Writing
  the CSV text and parsing it again is the work of pandas and is not modelled: the loader
  below reads the frame that the export builds, which is what the file gives back when
  the labels are distinct strings and the type cells are integers.
\<close>

type_synonym cell = "json option"

record frame =
  columns :: "string list"
  cells :: "cell list list"

definition fixed_columns :: "string list" where
  "fixed_columns = [''Repository'', ''Tool'', ''Total_Components'', ''Is_Empty'',
                    ''Execution_Time'', ''Repository_Size'', ''Java_Size'']"

definition cell_of :: "json \<Rightarrow> cell" where
  "cell_of v = (if v = JNull then None else Some v)"

text \<open>
  The text of a column label, \<^verbatim>\<open>f"{prefix}{x}"\<close> in \<^verbatim>\<open>add_prefix\<close>. The text of a
  number is left as the argument \<open>num_str\<close>.
\<close>

fun py_format :: "(json \<Rightarrow> string) \<Rightarrow> json \<Rightarrow> string" where
  "py_format num_str (JStr s) = s"
| "py_format num_str JNull = ''None''"
| "py_format num_str (JBool b) = (if b then ''True'' else ''False'')"
| "py_format num_str v = num_str v"

text \<open>
  \<^verbatim>\<open>df['Component_Types'].apply(pd.Series)\<close>: one column for every key of any counter,
  in the order of first appearance; \<^verbatim>\<open>fillna(0).astype(int)\<close> puts 0 where a counter
  lacks the key.
\<close>

definition type_keys :: "row list \<Rightarrow> json list" where
  "type_keys df =
     fold (\<lambda>r ks. fold (\<lambda>kv ks'. if list_ex (py_eq (fst kv)) ks' then ks'
                                  else ks' @ [fst kv])
                        (Component_Types r) ks)
          df []"

fun counter_get :: "counter \<Rightarrow> json \<Rightarrow> int" where
  "counter_get [] k = 0"
| "counter_get ((k', n) # c) k = (if py_eq k k' then n else counter_get c k)"

text \<open>Lines 547 to 552: the frame that \<^verbatim>\<open>to_csv\<close> writes.\<close>

definition export_to_csv :: "(json \<Rightarrow> string) \<Rightarrow> row list \<Rightarrow> frame" where
  "export_to_csv num_str df =
     (let keys = type_keys df
      in \<lparr>columns = fixed_columns @ map (\<lambda>k. ''Type_'' @ py_format num_str k) keys,
           cells = map (\<lambda>r. [Some (JStr (Repository r)), Some (JStr (Tool r)),
                              Some (JInt (Total_Components r)), Some (JBool (Is_Empty r)),
                              cell_of (Execution_Time r), cell_of (Repository_Size r),
                              cell_of (Java_Size r)]
                             @ map (\<lambda>k. Some (JInt (counter_get (Component_Types r) k))) keys)
                       df\<rparr>)"

text \<open>\<^verbatim>\<open>pat in s\<close> and \<^verbatim>\<open>s.replace(pat, '')\<close>, which drops the occurrences from left to right.\<close>

fun contains :: "string \<Rightarrow> string \<Rightarrow> bool" where
  "contains pat [] = (pat = [])"
| "contains pat (c # cs) = (startswith (c # cs) pat \<or> contains pat cs)"

function strip_all :: "string \<Rightarrow> string \<Rightarrow> string" where
  "strip_all pat [] = []"
| "strip_all pat (c # cs) =
     (if pat \<noteq> [] \<and> startswith (c # cs) pat
      then strip_all pat (drop (length pat) (c # cs))
      else c # strip_all pat cs)"
  by pat_completeness auto
termination
  by (relation "measure (\<lambda>p. length (snd p))") auto

text \<open>
  \<^verbatim>\<open>pd.notna(x) and x > 0\<close> followed by \<^verbatim>\<open>int(x)\<close>: the count to store, if any.
  A string, a list or a dict cannot be compared with 0.
\<close>

fun positive_int :: "json \<Rightarrow> py_error + int option" where
  "positive_int (JInt i) = Inr (if 0 < i then Some i else None)"
| "positive_int (JFloat r) = Inr (if 0 < r then Some \<lfloor>r\<rfloor> else None)"
| "positive_int (JBool b) = Inr (if b then Some 1 else None)"
| "positive_int v = Inl (NotOrderable (py_type v))"

text \<open>\<^verbatim>\<open>c[k] = n\<close> on a counter.\<close>

fun counter_set :: "json \<Rightarrow> int \<Rightarrow> counter \<Rightarrow> counter" where
  "counter_set k n [] = [(k, n)]"
| "counter_set k n ((k', m) # c) =
     (if py_eq k k' then (k', n) # c else (k', m) # counter_set k n c)"

text \<open>
  Lines 620 to 625: the loop over the columns for one row. The labels that
  \<^verbatim>\<open>read_csv\<close> gives are distinct, so \<^verbatim>\<open>row[col]\<close> is the cell at the place of the
  label.
\<close>

fun rebuild_types :: "(string \<times> cell) list \<Rightarrow> counter \<Rightarrow> py_error + counter" where
  "rebuild_types [] comp_types = Inr comp_types"
| "rebuild_types ((col, v) # rest) comp_types =
     (if startswith col ''Type_'' then
        (case v of
           None \<Rightarrow> rebuild_types rest comp_types
         | Some x \<Rightarrow>
             if x = JNull then rebuild_types rest comp_types
             else (case positive_int x of
                     Inl e \<Rightarrow> Inl e
                   | Inr None \<Rightarrow> rebuild_types rest comp_types
                   | Inr (Some n) \<Rightarrow>
                       rebuild_types rest
                         (counter_set (JStr (strip_all ''Type_'' col)) n comp_types)))
      else rebuild_types rest comp_types)"

text \<open>Lines 619 to 629: the \<^verbatim>\<open>Component_Types\<close> of every row of the loaded frame.\<close>

fun load_rows :: "string list \<Rightarrow> cell list list \<Rightarrow> py_error + counter list" where
  "load_rows cols [] = Inr []"
| "load_rows cols (r # rs) =
     (case rebuild_types (zip cols r) [] of
        Inl e \<Rightarrow> Inl e
      | Inr c \<Rightarrow>
          (case load_rows cols rs of
             Inl e \<Rightarrow> Inl e
           | Inr cs \<Rightarrow> Inr (c # cs)))"

definition load_and_visualize_csv :: "frame \<Rightarrow> py_error + counter list" where
  "load_and_visualize_csv f = load_rows (columns f) (cells f)"

text \<open>The strictly positive counts of a counter.\<close>

definition positive_counts :: "counter \<Rightarrow> counter" where
  "positive_counts c = filter (\<lambda>kv. 0 < snd kv) c"

text \<open>
  A type name that is a string without the substring \<^verbatim>\<open>Type_\<close>, and a counter whose
  keys are such names (and distinct, as the keys of a dict are).
\<close>

definition plain_key :: "json \<Rightarrow> bool" where
  "plain_key k = (case k of JStr s \<Rightarrow> \<not> contains ''Type_'' s | _ \<Rightarrow> False)"

definition plain_type_names :: "counter \<Rightarrow> bool" where
  "plain_type_names c = (distinct (map fst c) \<and> list_all (\<lambda>kv. plain_key (fst kv)) c)"

text \<open>The counter that the loop over the type columns builds for one row.\<close>

definition rebuilt :: "json list \<Rightarrow> counter \<Rightarrow> counter" where
  "rebuilt keys c =
     fold (\<lambda>k a. if 0 < counter_get c k then counter_set k (counter_get c k) a else a) keys []"

section \<open>Properties\<close>

subsection \<open>Python values\<close>

lemma py_type_dictD: "py_type v = PyDict \<Longrightarrow> \<exists>kvs. v = JObj kvs"
  by (cases v) simp_all

lemma py_iter_len: "py_iter v = Inr xs \<Longrightarrow> py_len v = Inr (int (length xs))"
  by (cases v) auto

lemma counter_total_add: "counter_total (counter_add k n c) = counter_total c + n"
  by (induction c) (auto simp: counter_total_def)

subsection \<open>Extraction\<close>

text \<open>The guarded block of the cbomkit branch returns on every payload.\<close>

lemma cbomkit_try_shape:
  "cbomkit_try d =
     Inr (case d of
           JArr (JObj kvs # rest) \<Rightarrow>
             (case map_of kvs ''bom'' of
                Some (JObj bom) \<Rightarrow>
                  (case map_of bom ''components'' of Some v \<Rightarrow> v | None \<Rightarrow> JArr [])
              | _ \<Rightarrow> JArr [])
         | _ \<Rightarrow> JArr [])"
  by (simp add: cbomkit_try_def isinstance_list_def isinstance_dict_def
           split: json.splits list.splits option.splits)

lemma extract_components_cbomkit:
  "\<not> is_cdx_like t \<Longrightarrow> extract_components d t = cbomkit_try d"
  by (simp add: extract_components_def cbomkit_try_shape)

lemma extract_components_shape:
  "extract_components d t = Inr (components_by_shape d t)"
proof (cases "is_cdx_like t")
  case True
  then show ?thesis
    by (simp add: extract_components_def components_by_shape_def is_cdx_like_def
          isinstance_dict_def split: json.splits)
next
  case False
  then have "lower t \<notin> {''cdxgen'', ''deepseek''}"
    by (simp add: is_cdx_like_def)
  with False show ?thesis
    by (simp add: extract_components_cbomkit cbomkit_try_shape components_by_shape_def)
qed

lemma supplied_components_shape:
  "supplied_components d t = Some xs \<Longrightarrow> components_by_shape d t = JArr xs"
  by (auto simp: supplied_components_def components_by_shape_def
           split: if_splits json.splits list.splits option.splits)

subsection \<open>The tally\<close>

lemma tally_total:
  "tally t xs c = Inr c' \<Longrightarrow> counter_total c' = counter_total c + int (length xs)"
proof (induction xs arbitrary: c)
  case Nil
  then show ?case by simp
next
  case (Cons x xs)
  then show ?case
    by (auto simp: counter_incr_def counter_total_add split: sum.splits if_splits)
qed

lemma tally_returns:
  "list_all (tallies t) xs \<Longrightarrow> \<exists>c'. tally t xs c = Inr c'"
proof (induction xs arbitrary: c)
  case Nil
  then show ?case by simp
next
  case (Cons x xs)
  then show ?case
    by (auto simp: tallies_def counter_incr_def split: sum.splits)
qed

lemma analyze_single_cbom_InrD:
  assumes "analyze_single_cbom d t = Inr r"
  shows "\<exists>v comps. extract_components d t = Inr v \<and> py_iter v = Inr comps
           \<and> tally t comps [] = Inr (component_types r)
           \<and> total_components r = int (length comps)
           \<and> is_empty r = (total_components r = 0) \<and> error r = None"
  using assms
  by (auto simp: analyze_single_cbom_def split: sum.splits dest!: py_iter_len)

lemma analyze_single_cbom_returns:
  assumes "extract_components d t = Inr (JArr xs)" and "list_all (tallies t) xs"
  shows "\<exists>r. analyze_single_cbom d t = Inr r \<and> total_components r = int (length xs)"
proof -
  from assms(2) obtain c' where "tally t xs [] = Inr c'"
    using tally_returns by blast
  with assms(1) show ?thesis
    by (simp add: analyze_single_cbom_def)
qed

lemma not_cdx_like_cbomkit: "\<not> is_cdx_like ''cbomkit''"
  by code_simp

lemma cdx_like_cdxgen: "is_cdx_like ''cdxgen''"
  by code_simp

subsection \<open>Claims about one analysis\<close>

text \<open>
  Claim C1. Whenever \<^verbatim>\<open>analyze_single_cbom\<close> produces a record, its \<^verbatim>\<open>is_empty\<close> is
  true exactly when its \<^verbatim>\<open>total_components\<close> is zero; the same holds of the record that
  \<^verbatim>\<open>analyze_all_cboms\<close> stores for a file, and the error record has
  \<^verbatim>\<open>total_components\<close> 0 and \<^verbatim>\<open>is_empty\<close> true.
\<close>

theorem emptiness_flag_iff_zero:
  "(\<forall>r. analyze_single_cbom d t = Inr r \<longrightarrow> (is_empty r \<longleftrightarrow> total_components r = 0))
   \<and> (is_empty (stored_record t outcome) \<longleftrightarrow> total_components (stored_record t outcome) = 0)
   \<and> is_empty (error_record e) \<and> total_components (error_record e) = 0"
proof -
  have a: "is_empty r \<longleftrightarrow> total_components r = 0" if "analyze_single_cbom d t = Inr r" for d t r
    using analyze_single_cbom_InrD [OF that] by blast
  have b: "is_empty (error_record e) \<and> total_components (error_record e) = 0" for e
    by (simp add: error_record_def)
  have c: "is_empty (stored_record t outcome) \<longleftrightarrow> total_components (stored_record t outcome) = 0"
    using a b by (auto simp: stored_record_def try_body_def split: sum.splits)
  from a b c show ?thesis by blast
qed

theorem emptiness_flag_iff_zero_witness:
  "analyze_single_cbom (JObj [(''components'', JArr [JObj [(''type'', JStr ''library'')]])]) ''cdxgen''
     = Inr \<lparr>total_components = 1, is_empty = False,
            component_types = [(JStr ''library'', 1)], error = None\<rparr>
   \<and> (is_empty \<lparr>total_components = 1, is_empty = False,
            component_types = [(JStr ''library'', 1)], error = None\<rparr>
        \<longleftrightarrow> total_components \<lparr>total_components = 1, is_empty = False,
            component_types = [(JStr ''library'', 1)], error = None\<rparr> = 0)"
proof -
  have h: "analyze_single_cbom (JObj [(''components'', JArr [JObj [(''type'', JStr ''library'')]])]) ''cdxgen''
     = Inr \<lparr>total_components = 1, is_empty = False,
            component_types = [(JStr ''library'', 1)], error = None\<rparr>"
    by code_simp
  from emptiness_flag_iff_zero [of "JObj [(''components'', JArr [JObj [(''type'', JStr ''library'')]])]" "''cdxgen''"] h
  show ?thesis by blast
qed

text \<open>
  Claim C6. The value bound to \<^verbatim>\<open>components\<close> follows the shape rules: for cdxgen and
  deepseek (the tool name compared in lower case) the top-level \<^verbatim>\<open>components\<close> of a
  dict payload; for every other tool the \<^verbatim>\<open>components\<close> of the dict under \<^verbatim>\<open>bom\<close>
  in the first element of a list payload; the empty list in every other case. The
  extraction itself never raises.
\<close>

theorem extract_components_by_shape:
  "extract_components cbom_data tool_name = Inr (components_by_shape cbom_data tool_name)"
  by (rule extract_components_shape)

text \<open>
  Claim C10. For a tool other than cdxgen and deepseek, the guarded block raises on no
  payload, so its handler is never entered; a dict payload gives the empty component
  list, \<^verbatim>\<open>total_components\<close> 0 and \<^verbatim>\<open>is_empty\<close> true, whatever its
  \<^verbatim>\<open>components\<close> key holds.
\<close>

theorem cbomkit_dict_payload_empty:
  assumes "\<not> is_cdx_like tool_name"
  shows "(\<forall>d e. cbomkit_try d \<noteq> Inl e)
       \<and> extract_components (JObj kvs) tool_name = Inr (JArr [])
       \<and> analyze_single_cbom (JObj kvs) tool_name
           = Inr \<lparr>total_components = 0, is_empty = True, component_types = [], error = None\<rparr>"
proof -
  have a: "\<forall>d e. cbomkit_try d \<noteq> Inl e"
    by (simp add: cbomkit_try_shape)
  have b: "extract_components (JObj kvs) tool_name = Inr (JArr [])"
    using assms by (simp add: extract_components_cbomkit cbomkit_try_shape)
  have c: "analyze_single_cbom (JObj kvs) tool_name
           = Inr \<lparr>total_components = 0, is_empty = True, component_types = [], error = None\<rparr>"
    by (simp add: analyze_single_cbom_def b)
  from a b c show ?thesis by blast
qed

theorem cbomkit_dict_payload_empty_witness:
  "\<not> is_cdx_like ''cbomkit''
   \<and> analyze_single_cbom (JObj [(''components'', JArr [JObj [(''type'', JStr ''library'')]])]) ''cbomkit''
       = Inr \<lparr>total_components = 0, is_empty = True, component_types = [], error = None\<rparr>"
  using cbomkit_dict_payload_empty [OF not_cdx_like_cbomkit] not_cdx_like_cbomkit by blast




text \<open>
  Claim C5, as stated for every payload, fails where the analysis does not return: with
  \<^verbatim>\<open>"components": null\<close> the loop raises and no \<^verbatim>\<open>total_components\<close> is produced.
\<close>

theorem null_components_raise:
  "analyze_single_cbom (JObj [(''components'', JNull)]) ''cdxgen'' = Inl (NotIterable PyNone)"
  by code_simp

text \<open>
  Claim C5, amended. Whenever \<^verbatim>\<open>analyze_single_cbom\<close> returns, \<^verbatim>\<open>total_components\<close> is
  the number of extracted components and so not negative; and when the payload supplies
  a components array in the shape of its tool and every entry can be counted, the
  analysis returns and \<^verbatim>\<open>total_components\<close> is the length of that array.
\<close>

theorem total_components_is_length:
  "(\<forall>r. analyze_single_cbom d t = Inr r \<longrightarrow>
      (\<exists>v comps. extract_components d t = Inr v \<and> py_iter v = Inr comps
         \<and> total_components r = int (length comps) \<and> 0 \<le> total_components r))
   \<and> (\<forall>xs. supplied_components d t = Some xs \<and> list_all (tallies t) xs \<longrightarrow>
        (\<exists>r. analyze_single_cbom d t = Inr r \<and> total_components r = int (length xs)))"
proof -
  have a: "\<exists>v comps. extract_components d t = Inr v \<and> py_iter v = Inr comps
         \<and> total_components r = int (length comps) \<and> 0 \<le> total_components r"
    if "analyze_single_cbom d t = Inr r" for r
    using analyze_single_cbom_InrD [OF that] by auto
  have b: "\<exists>r. analyze_single_cbom d t = Inr r \<and> total_components r = int (length xs)"
    if "supplied_components d t = Some xs" "list_all (tallies t) xs" for xs
  proof -
    from that(1) have "extract_components d t = Inr (JArr xs)"
      by (simp add: extract_components_shape supplied_components_shape)
    then show ?thesis using that(2) by (rule analyze_single_cbom_returns)
  qed
  from a b show ?thesis by blast
qed

theorem total_components_is_length_witness:
  "supplied_components (JArr [JObj [(''bom'', JObj [(''components'', JArr [JObj [(''type'', JStr ''library'')], JInt 3])])]]) ''cbomkit''
     = Some [JObj [(''type'', JStr ''library'')], JInt 3]
   \<and> list_all (tallies ''cbomkit'') [JObj [(''type'', JStr ''library'')], JInt 3]
   \<and> (\<exists>r. analyze_single_cbom (JArr [JObj [(''bom'', JObj [(''components'', JArr [JObj [(''type'', JStr ''library'')], JInt 3])])]]) ''cbomkit'' = Inr r
          \<and> total_components r = 2)"
proof -
  have h1: "supplied_components (JArr [JObj [(''bom'', JObj [(''components'', JArr [JObj [(''type'', JStr ''library'')], JInt 3])])]]) ''cbomkit''
     = Some [JObj [(''type'', JStr ''library'')], JInt 3]" by code_simp
  have h2: "list_all (tallies ''cbomkit'') [JObj [(''type'', JStr ''library'')], JInt 3]"
    by code_simp
  from total_components_is_length [of "JArr [JObj [(''bom'', JObj [(''components'', JArr [JObj [(''type'', JStr ''library'')], JInt 3])])]]" "''cbomkit''"] h1 h2
  show ?thesis by fastforce
qed

subsection \<open>The batch loop\<close>

lemma map_of_dict_set: "map_of (dict_set k v d) = (map_of d)(k \<mapsto> v)"
  by (induction d) (auto simp: fun_eq_iff)

lemma set_dict_set: "set (dict_set k v d) \<subseteq> insert (k, v) (set d)"
  by (induction d) (auto split: if_splits)

lemma analyze_all_cboms_Cons:
  "analyze_all_cboms (a # tools) listing cd
      = analyze_all_cboms tools listing
          (case listing a of None \<Rightarrow> cd | Some fs \<Rightarrow> analyze_files a (cbom_files fs) cd)"
  by (simp add: analyze_all_cboms_def)

lemma lookup2_store:
  "lookup2 (store cd r t a) r' t' = (if r' = r \<and> t' = t then Some a else lookup2 cd r' t')"
  by (auto simp: lookup2_def store_def map_of_dict_set split: option.splits)

lemma lookup2_analyze_files_other:
  "t' \<noteq> tool \<Longrightarrow> lookup2 (analyze_files tool fs cd) r t' = lookup2 cd r t'"
  by (induction fs arbitrary: cd) (auto simp: lookup2_store)

lemma lookup2_analyze_files_absent:
  "r \<notin> (\<lambda>f. splitext_root (fst f)) ` set fs \<Longrightarrow>
     lookup2 (analyze_files tool fs cd) r t' = lookup2 cd r t'"
  by (induction fs arbitrary: cd) (auto simp: lookup2_store)

lemma lookup2_analyze_files:
  assumes "distinct (map (\<lambda>f. splitext_root (fst f)) fs)" and "(f, oc) \<in> set fs"
  shows "lookup2 (analyze_files tool fs cd) (splitext_root f) tool = Some (stored_record tool oc)"
  using assms
proof (induction fs arbitrary: cd)
  case Nil
  then show ?case by simp
next
  case (Cons x fs)
  obtain g og where x: "x = (g, og)" by (cases x)
  show ?case
  proof (cases "(f, oc) = x")
    case True
    with Cons.prems x have "splitext_root f \<notin> (\<lambda>f. splitext_root (fst f)) ` set fs"
      by auto
    then show ?thesis
      using True x by (simp add: lookup2_analyze_files_absent lookup2_store)
  next
    case False
    with Cons.prems have "(f, oc) \<in> set fs" "distinct (map (\<lambda>f. splitext_root (fst f)) fs)"
      by auto
    then show ?thesis using Cons.IH x by simp
  qed
qed

lemma analyze_files_append:
  "analyze_files tool (xs @ ys) cd = analyze_files tool ys (analyze_files tool xs cd)"
  by (induction xs arbitrary: cd) auto

lemma lookup2_analyze_all_other:
  "t \<notin> set tools \<Longrightarrow> lookup2 (analyze_all_cboms tools listing cd) r t = lookup2 cd r t"
proof (induction tools arbitrary: cd)
  case Nil
  then show ?case by (simp add: analyze_all_cboms_def)
next
  case (Cons a tools)
  then have "lookup2 (analyze_all_cboms tools listing cd') r t = lookup2 cd' r t" for cd'
    by simp
  with Cons.prems show ?case
    by (auto simp: analyze_all_cboms_def lookup2_analyze_files_other split: option.splits)
qed

lemma lookup2_analyze_all:
  assumes "distinct tools" "tool \<in> set tools" "listing tool = Some files"
    "distinct (map (\<lambda>f. splitext_root (fst f)) (cbom_files files))"
    "(f, oc) \<in> set (cbom_files files)"
  shows "lookup2 (analyze_all_cboms tools listing cd) (splitext_root f) tool
           = Some (stored_record tool oc)"
  using assms(1,2)
proof (induction tools arbitrary: cd)
  case Nil
  then show ?case by simp
next
  case (Cons a tools)
  note unf = analyze_all_cboms_Cons
  show ?case
  proof (cases "a = tool")
    case True
    with Cons.prems have "tool \<notin> set tools" by auto
    then show ?thesis
      using True assms(3-5) by (simp add: unf lookup2_analyze_all_other lookup2_analyze_files)
  next
    case False
    with Cons.prems have "tool \<in> set tools" "distinct tools" by auto
    then show ?thesis using Cons.IH by (simp add: unf)
  qed
qed

text \<open>
  Claim C4. When reading, parsing or analysing a file raises, the loop stores the error
  record (\<^verbatim>\<open>total_components\<close> 0, \<^verbatim>\<open>is_empty\<close> true, an empty counter and the
  error) for its (repository, tool) pair and goes on with the files after it; at the end
  of the batch the pair still holds that record and every other file of the tool holds
  its own, provided no two files of the tool share a repository name.
\<close>

theorem malformed_file_recorded_batch_continues:
  assumes "try_body tool outcome = Inl e"
  shows "analyze_files tool (before @ (cbom_file, outcome) # after) cd
           = analyze_files tool after
               (store (analyze_files tool before cd) (splitext_root cbom_file) tool (error_record e))
       \<and> lookup2 (store cd' (splitext_root cbom_file) tool (error_record e))
              (splitext_root cbom_file) tool
           = Some \<lparr>total_components = 0, is_empty = True, component_types = [], error = Some e\<rparr>
       \<and> (distinct tools \<and> tool \<in> set tools \<and> listing tool = Some files
            \<and> distinct (map (\<lambda>f. splitext_root (fst f)) (cbom_files files))
            \<and> (cbom_file, outcome) \<in> set (cbom_files files) \<longrightarrow>
          lookup2 (analyze_all_cboms tools listing cd) (splitext_root cbom_file) tool
            = Some \<lparr>total_components = 0, is_empty = True, component_types = [], error = Some e\<rparr>
          \<and> (\<forall>f oc. (f, oc) \<in> set (cbom_files files) \<longrightarrow>
                lookup2 (analyze_all_cboms tools listing cd) (splitext_root f) tool
                  = Some (stored_record tool oc)))"
proof -
  have rec: "stored_record tool outcome = error_record e"
    using assms by (simp add: stored_record_def)
  have a: "analyze_files tool (before @ (cbom_file, outcome) # after) cd
           = analyze_files tool after
               (store (analyze_files tool before cd) (splitext_root cbom_file) tool (error_record e))"
    by (simp add: analyze_files_append rec)
  have b: "lookup2 (store cd' (splitext_root cbom_file) tool (error_record e))
              (splitext_root cbom_file) tool
           = Some \<lparr>total_components = 0, is_empty = True, component_types = [], error = Some e\<rparr>"
    by (simp add: lookup2_store error_record_def)
  have c: "lookup2 (analyze_all_cboms tools listing cd) (splitext_root f) tool
                  = Some (stored_record tool oc)"
    if "distinct tools" "tool \<in> set tools" "listing tool = Some files"
       "distinct (map (\<lambda>f. splitext_root (fst f)) (cbom_files files))"
       "(f, oc) \<in> set (cbom_files files)" for f oc
    using that by (rule lookup2_analyze_all)
  have d: "lookup2 (analyze_all_cboms tools listing cd) (splitext_root cbom_file) tool
            = Some \<lparr>total_components = 0, is_empty = True, component_types = [], error = Some e\<rparr>"
    if "distinct tools" "tool \<in> set tools" "listing tool = Some files"
       "distinct (map (\<lambda>f. splitext_root (fst f)) (cbom_files files))"
       "(cbom_file, outcome) \<in> set (cbom_files files)"
    using c [OF that] rec by (simp add: error_record_def)
  from a b c d show ?thesis by blast
qed

theorem malformed_file_recorded_batch_continues_witness:
  "try_body ''cdxgen'' (Inr (JObj [(''components'', JNull)])) = Inl (NotIterable PyNone)
   \<and> lookup2 (analyze_all_cboms TOOL_NAMES example_listing []) ''a'' ''cdxgen''
       = Some \<lparr>total_components = 0, is_empty = True, component_types = [],
               error = Some (NotIterable PyNone)\<rparr>
   \<and> lookup2 (analyze_all_cboms TOOL_NAMES example_listing []) ''b'' ''cdxgen''
       = Some \<lparr>total_components = 1, is_empty = False,
               component_types = [(JStr ''library'', 1)], error = None\<rparr>"
proof -
  let ?files = "[(''a.json'', Inr (JObj [(''components'', JNull)])),
                 (''notes.txt'', Inl (ReadFailure ''unused'')),
                 (''b.json'', Inr (JObj [(''components'', JArr [JObj [(''type'', JStr ''library'')]])]))]"
  have h: "try_body ''cdxgen'' (Inr (JObj [(''components'', JNull)])) = Inl (NotIterable PyNone)"
    by code_simp
  have p1: "distinct TOOL_NAMES" by code_simp
  have p2: "''cdxgen'' \<in> set TOOL_NAMES" by code_simp
  have p3: "example_listing ''cdxgen'' = Some ?files" by (simp add: example_listing_def)
  have p4: "distinct (map (\<lambda>f. splitext_root (fst f)) (cbom_files ?files))" by code_simp
  have p5: "(''a.json'', Inr (JObj [(''components'', JNull)])) \<in> set (cbom_files ?files)"
    by code_simp
  have p6: "(''b.json'', Inr (JObj [(''components'', JArr [JObj [(''type'', JStr ''library'')]])]))
              \<in> set (cbom_files ?files)"
    by code_simp
  have r1: "splitext_root ''a.json'' = ''a''" by code_simp
  have r2: "splitext_root ''b.json'' = ''b''" by code_simp
  have s2: "stored_record ''cdxgen'' (Inr (JObj [(''components'', JArr [JObj [(''type'', JStr ''library'')]])]))
      = \<lparr>total_components = 1, is_empty = False,
               component_types = [(JStr ''library'', 1)], error = None\<rparr>"
    by code_simp
  from malformed_file_recorded_batch_continues [OF h, where tools = TOOL_NAMES and listing = example_listing and files = ?files
             and cbom_file = "''a.json''" and cd = "[]"]
    p1 p2 p3 p4 p5 p6
  have "lookup2 (analyze_all_cboms TOOL_NAMES example_listing []) (splitext_root ''a.json'') ''cdxgen''
            = Some \<lparr>total_components = 0, is_empty = True, component_types = [],
                 error = Some (NotIterable PyNone)\<rparr>"
    and "lookup2 (analyze_all_cboms TOOL_NAMES example_listing []) (splitext_root ''b.json'') ''cdxgen''
            = Some (stored_record ''cdxgen'' (Inr (JObj [(''components'', JArr [JObj [(''type'', JStr ''library'')]])])))"
    by blast+
  with h show ?thesis by (simp only: r1 r2 s2) 
qed

subsection \<open>Sums of type counts\<close>

lemma counter_total_fold_add:
  "counter_total (fold (\<lambda>kv a. counter_add (fst kv) (snd kv) a) c acc)
     = counter_total acc + counter_total c"
proof (induction c arbitrary: acc)
  case Nil
  then show ?case by (simp add: counter_total_def)
next
  case (Cons kv c)
  have "counter_total (kv # c) = snd kv + counter_total c"
    by (simp add: counter_total_def)
  with Cons show ?case by (simp add: counter_total_add)
qed

lemma counter_total_update:
  "counter_total (counter_update acc c) = counter_total acc + counter_total c"
  by (simp add: counter_update_def counter_total_fold_add) (simp add: counter_total_def)

lemma counter_total_fold_update:
  assumes "\<forall>r \<in> set rows. counter_total (Component_Types r) = Total_Components r"
  shows "counter_total (fold (\<lambda>r a. counter_update a (Component_Types r)) rows acc)
           = counter_total acc + sum_list (map Total_Components rows)"
  using assms
  by (induction rows arbitrary: acc) (simp_all add: counter_total_update)

lemma tool_statistics_total:
  assumes "\<forall>r \<in> set rows. counter_total (Component_Types r) = Total_Components r"
  shows "counter_total (stats_component_types (tool_statistics rows))
           = stats_total_components (tool_statistics rows)"
  using counter_total_fold_update [OF assms, of "[]"]
  by (simp add: tool_statistics_def) (simp add: counter_total_def)

lemma calculate_statistics_entries:
  assumes "ts \<in> set (fold (\<lambda>tool stats.
             (let tool_df = filter (\<lambda>r. Tool r = tool) df
              in if tool_df = [] then stats
                 else dict_set tool (tool_statistics tool_df) stats)) tools acc)"
  shows "ts \<in> set acc \<or> (\<exists>tool. snd ts = tool_statistics (filter (\<lambda>r. Tool r = tool) df))"
  using assms
proof (induction tools arbitrary: acc)
  case Nil
  then show ?case by simp
next
  case (Cons t tools)
  let ?acc' = "(let tool_df = filter (\<lambda>r. Tool r = t) df
              in if tool_df = [] then acc
                 else dict_set t (tool_statistics tool_df) acc)"
  from Cons.prems have "ts \<in> set (fold (\<lambda>tool stats.
             (let tool_df = filter (\<lambda>r. Tool r = tool) df
              in if tool_df = [] then stats
                 else dict_set tool (tool_statistics tool_df) stats)) tools ?acc')"
    by simp
  from Cons.IH [OF this]
  show ?case
  proof
    assume "ts \<in> set ?acc'"
    then have "ts \<in> set acc \<or> ts = (t, tool_statistics (filter (\<lambda>r. Tool r = t) df))"
      using set_dict_set [of t "tool_statistics (filter (\<lambda>r. Tool r = t) df)" acc]
      by (auto simp: Let_def split: if_splits)
    then show ?thesis by force
  next
    assume "\<exists>tool. snd ts = tool_statistics (filter (\<lambda>r. Tool r = tool) df)"
    then show ?thesis by blast
  qed
qed

lemma calculate_statistics_total:
  assumes "\<forall>r \<in> set df. counter_total (Component_Types r) = Total_Components r"
    and "ts \<in> set (calculate_statistics tools df)"
  shows "counter_total (stats_component_types (snd ts)) = stats_total_components (snd ts)"
proof -
  from assms(2) obtain tool where "snd ts = tool_statistics (filter (\<lambda>r. Tool r = tool) df)"
    using calculate_statistics_entries [of ts df tools "[]"]
    by (auto simp: calculate_statistics_def)
  moreover have "\<forall>r \<in> set (filter (\<lambda>r. Tool r = tool) df).
      counter_total (Component_Types r) = Total_Components r"
    using assms(1) by simp
  ultimately show ?thesis by (simp add: tool_statistics_total)
qed

lemma counts_consistent_analysis:
  "analyze_single_cbom d t = Inr r \<Longrightarrow> counts_consistent r"
proof -
  assume "analyze_single_cbom d t = Inr r"
  from analyze_single_cbom_InrD [OF this] obtain comps where
    "tally t comps [] = Inr (component_types r)" "total_components r = int (length comps)"
    by blast
  then show ?thesis
    using tally_total [of t comps "[]" "component_types r"]
    by (simp add: counts_consistent_def counter_total_def)
qed

lemma counts_consistent_error: "counts_consistent (error_record e)"
  by (simp add: counts_consistent_def error_record_def counter_total_def)

lemma counts_consistent_stored: "counts_consistent (stored_record tool oc)"
  by (auto simp: stored_record_def try_body_def counts_consistent_error
           split: sum.splits intro: counts_consistent_analysis)

lemma records_of_Nil: "records_of [] = []"
  by (simp add: records_of_def)

lemma records_of_Cons: "records_of (x # cd) = map snd (snd x) @ records_of cd"
  by (simp add: records_of_def)

lemma records_of_dict_set:
  "a \<in> set (records_of (dict_set r td cd)) \<Longrightarrow>
     a \<in> snd ` set td \<or> a \<in> set (records_of cd)"
proof (induction cd)
  case Nil
  then show ?case by (simp add: records_of_Cons records_of_Nil)
next
  case (Cons x cd)
  obtain r' td' where x: "x = (r', td')" by (cases x)
  show ?case
  proof (cases "r = r'")
    case True
    with Cons.prems x show ?thesis by (auto simp: records_of_Cons)
  next
    case False
    with Cons.prems x have "a \<in> snd ` set td' \<or> a \<in> set (records_of (dict_set r td cd))"
      by (auto simp: records_of_Cons)
    with Cons.IH x show ?thesis by (auto simp: records_of_Cons)
  qed
qed

lemma map_of_records:
  "map_of cd r = Some td \<Longrightarrow> a \<in> snd ` set td \<Longrightarrow> a \<in> set (records_of cd)"
proof (induction cd)
  case Nil
  then show ?case by simp
next
  case (Cons x cd)
  then show ?case
    by (cases "fst x = r") (auto simp: records_of_Cons)
qed

lemma snd_dict_set:
  "b \<in> snd ` set (dict_set t a d) \<Longrightarrow> b = a \<or> b \<in> snd ` set d"
  using set_dict_set [of t a d] by force

lemma records_of_store:
  assumes "b \<in> set (records_of (store cd r t a))"
  shows "b = a \<or> b \<in> set (records_of cd)"
proof -
  let ?td = "case map_of cd r of Some tools_data \<Rightarrow> tools_data | None \<Rightarrow> []"
  from assms have "b \<in> snd ` set (dict_set t a ?td) \<or> b \<in> set (records_of cd)"
    unfolding store_def by (rule records_of_dict_set)
  moreover have "b = a \<or> b \<in> snd ` set ?td" if "b \<in> snd ` set (dict_set t a ?td)"
    using that by (rule snd_dict_set)
  moreover have "b \<in> set (records_of cd)" if "b \<in> snd ` set ?td"
  proof (cases "map_of cd r")
    case None
    with that show ?thesis by simp
  next
    case (Some td)
    with that show ?thesis using map_of_records [OF Some] by simp
  qed
  ultimately show ?thesis by blast
qed

lemma records_analyze_files:
  assumes "\<forall>a \<in> set (records_of cd). counts_consistent a"
  shows "\<forall>a \<in> set (records_of (analyze_files tool fs cd)). counts_consistent a"
  using assms
proof (induction fs arbitrary: cd)
  case Nil
  then show ?case by simp
next
  case (Cons x fs)
  obtain f oc where x: "x = (f, oc)" by (cases x)
  have "\<forall>a \<in> set (records_of (store cd (splitext_root f) tool (stored_record tool oc))).
          counts_consistent a"
    using records_of_store [of _ cd "splitext_root f" tool "stored_record tool oc"]
      Cons.prems counts_consistent_stored by blast
  from Cons.IH [OF this] show ?case using x by simp
qed

lemma records_analyze_all:
  assumes "\<forall>a \<in> set (records_of cd). counts_consistent a"
  shows "\<forall>a \<in> set (records_of (analyze_all_cboms tools listing cd)). counts_consistent a"
  using assms
proof (induction tools arbitrary: cd)
  case Nil
  then show ?case by (simp add: analyze_all_cboms_def)
next
  case (Cons t tools)
  have "\<forall>a \<in> set (records_of (case listing t of None \<Rightarrow> cd
           | Some fs \<Rightarrow> analyze_files t (cbom_files fs) cd)). counts_consistent a"
    using Cons.prems records_analyze_files by (auto split: option.splits)
  from Cons.IH [OF this] show ?case by (simp add: analyze_all_cboms_Cons)
qed

lemma tool_rows_records:
  assumes "tool_rows et repo sizes td = Inr rows" and "r \<in> set rows"
  shows "\<exists>a \<in> snd ` set td. Total_Components r = total_components a
            \<and> Component_Types r = component_types a \<and> Is_Empty r = is_empty a"
  using assms
proof (induction td arbitrary: rows)
  case Nil
  then show ?case by simp
next
  case (Cons x td)
  obtain tool data where x: "x = (tool, data)" by (cases x)
  from Cons.prems(1) x obtain tm rest where
    rest: "tool_rows et repo sizes td = Inr rest"
    and rows: "rows = \<lparr>Repository = repo, Tool = tool,
                      Total_Components = total_components data,
                      Is_Empty = is_empty data,
                      Execution_Time = tm,
                      Component_Types = component_types data,
                      Repository_Size = fst sizes,
                      Java_Size = snd sizes\<rparr> # rest"
    by (auto split: sum.splits)
  from Cons.prems(2) rows consider "r = hd rows" | "r \<in> set rest" by auto
  then show ?case
  proof cases
    case 1
    with rows x show ?thesis by simp
  next
    case 2
    from Cons.IH [OF rest 2] show ?thesis by auto
  qed
qed

lemma join_rows_records:
  assumes "join_rows cd et sizes = Inr df" and "r \<in> set df"
  shows "\<exists>a \<in> set (records_of cd). Total_Components r = total_components a
            \<and> Component_Types r = component_types a \<and> Is_Empty r = is_empty a"
  using assms
proof (induction cd arbitrary: df)
  case Nil
  then show ?case by simp
next
  case (Cons x cd)
  obtain repo td where x: "x = (repo, td)" by (cases x)
  from Cons.prems x obtain rows rest where
    rows: "tool_rows et repo (case sizes repo of Some p \<Rightarrow> p | None \<Rightarrow> (JNull, JNull)) td = Inr rows"
    and rest: "join_rows cd et sizes = Inr rest" and df: "df = rows @ rest"
    by (auto split: sum.splits)
  from Cons.prems(2) df consider "r \<in> set rows" | "r \<in> set rest" by auto
  then show ?case
  proof cases
    case 1
    from tool_rows_records [OF rows 1] show ?thesis
      using x by (auto simp: records_of_Cons)
  next
    case 2
    from Cons.IH [OF rest 2] show ?thesis
      by (auto simp: records_of_Cons)
  qed
qed

text \<open>
  Claim C3. Every record of \<^verbatim>\<open>analyze_single_cbom\<close> and the error record have type
  counts that sum to \<^verbatim>\<open>total_components\<close>; aggregation keeps this: for rows with that
  property, and so for the rows joined from any batch, the type distribution of every
  tool in \<^verbatim>\<open>_calculate_statistics\<close> sums to the tool's total component count.
\<close>

theorem aggregate_type_counts_sum_to_total:
  "(\<forall>r. analyze_single_cbom d t = Inr r \<longrightarrow>
        counter_total (component_types r) = total_components r)
   \<and> counter_total (component_types (error_record e)) = total_components (error_record e)
   \<and> ((\<forall>r \<in> set df. counter_total (Component_Types r) = Total_Components r) \<longrightarrow>
        (\<forall>ts \<in> set (calculate_statistics tools df).
            counter_total (stats_component_types (snd ts)) = stats_total_components (snd ts)))
   \<and> ((\<forall>a \<in> set (records_of cd). counts_consistent a)
        \<and> join_rows (analyze_all_cboms tools listing cd) et sizes = Inr df' \<longrightarrow>
        (\<forall>ts \<in> set (calculate_statistics tools df').
            counter_total (stats_component_types (snd ts)) = stats_total_components (snd ts)))"
proof -
  have a: "counter_total (component_types r) = total_components r"
    if "analyze_single_cbom d t = Inr r" for r
    using counts_consistent_analysis [OF that] by (simp add: counts_consistent_def)
  have b: "counter_total (component_types (error_record e)) = total_components (error_record e)"
    using counts_consistent_error [of e] by (simp add: counts_consistent_def)
  have c: "counter_total (stats_component_types (snd ts)) = stats_total_components (snd ts)"
    if "\<forall>r \<in> set df. counter_total (Component_Types r) = Total_Components r"
       "ts \<in> set (calculate_statistics tools df)" for ts df
    using that by (rule calculate_statistics_total)
  have d: "counter_total (stats_component_types (snd ts)) = stats_total_components (snd ts)"
    if inv: "\<forall>a \<in> set (records_of cd). counts_consistent a"
      and j: "join_rows (analyze_all_cboms tools listing cd) et sizes = Inr df'"
      and ts: "ts \<in> set (calculate_statistics tools df')" for ts
  proof -
    have "\<forall>r \<in> set df'. counter_total (Component_Types r) = Total_Components r"
    proof
      fix r assume "r \<in> set df'"
      from join_rows_records [OF j this] obtain a where
        "a \<in> set (records_of (analyze_all_cboms tools listing cd))"
        "Total_Components r = total_components a" "Component_Types r = component_types a"
        by blast
      then show "counter_total (Component_Types r) = Total_Components r"
        using records_analyze_all [OF inv, of tools listing]
        by (auto simp: counts_consistent_def)
    qed
    then show ?thesis using ts by (rule c)
  qed
  from a b c d show ?thesis by blast
qed

theorem aggregate_type_counts_sum_to_total_witness:
  "records_of [] = []
   \<and> join_rows (analyze_all_cboms TOOL_NAMES example_listing []) (JObj []) Map.empty
       = Inr [\<lparr>Repository = ''a'', Tool = ''cdxgen'', Total_Components = 0,
                Is_Empty = True, Execution_Time = JNull, Component_Types = [],
                Repository_Size = JNull, Java_Size = JNull\<rparr>,
              \<lparr>Repository = ''b'', Tool = ''cdxgen'', Total_Components = 1,
                Is_Empty = False, Execution_Time = JNull,
                Component_Types = [(JStr ''library'', 1)], Repository_Size = JNull,
                Java_Size = JNull\<rparr>]
   \<and> calculate_statistics TOOL_NAMES
         [\<lparr>Repository = ''a'', Tool = ''cdxgen'', Total_Components = 0,
            Is_Empty = True, Execution_Time = JNull, Component_Types = [],
            Repository_Size = JNull, Java_Size = JNull\<rparr>,
          \<lparr>Repository = ''b'', Tool = ''cdxgen'', Total_Components = 1,
            Is_Empty = False, Execution_Time = JNull,
            Component_Types = [(JStr ''library'', 1)], Repository_Size = JNull,
            Java_Size = JNull\<rparr>]
       = [(''cdxgen'', \<lparr>total_repos = 2, empty_cboms = 1, non_empty_cboms = 1,
                          stats_total_components = 1,
                          stats_component_types = [(JStr ''library'', 1)]\<rparr>)]
   \<and> counter_total (stats_component_types
          \<lparr>total_repos = 2, empty_cboms = 1, non_empty_cboms = 1,
           stats_total_components = 1,
           stats_component_types = [(JStr ''library'', 1)]\<rparr>)
       = stats_total_components
          \<lparr>total_repos = 2, empty_cboms = 1, non_empty_cboms = 1,
           stats_total_components = 1,
           stats_component_types = [(JStr ''library'', 1)]\<rparr>"
proof -
  let ?df = "[\<lparr>Repository = ''a'', Tool = ''cdxgen'', Total_Components = 0,
                Is_Empty = True, Execution_Time = JNull, Component_Types = [],
                Repository_Size = JNull, Java_Size = JNull\<rparr>,
              \<lparr>Repository = ''b'', Tool = ''cdxgen'', Total_Components = 1,
                Is_Empty = False, Execution_Time = JNull,
                Component_Types = [(JStr ''library'', 1)], Repository_Size = JNull,
                Java_Size = JNull\<rparr>]"
  let ?st = "\<lparr>total_repos = 2, empty_cboms = 1, non_empty_cboms = 1,
           stats_total_components = 1,
           stats_component_types = [(JStr ''library'', 1)]\<rparr>"
  have h0: "records_of [] = []"
    by (simp add: records_of_def)
  then have h1: "\<forall>a \<in> set (records_of []). counts_consistent a"
    by simp
  have h2: "join_rows (analyze_all_cboms TOOL_NAMES example_listing []) (JObj []) Map.empty
       = Inr ?df"
    by code_simp
  have h3: "calculate_statistics TOOL_NAMES ?df = [(''cdxgen'', ?st)]"
    by code_simp
  from aggregate_type_counts_sum_to_total [where cd = "[]" and tools = TOOL_NAMES
      and listing = example_listing and et = "JObj []" and sizes = Map.empty and df' = ?df]
    h1 h2
  have "\<forall>ts \<in> set (calculate_statistics TOOL_NAMES ?df).
          counter_total (stats_component_types (snd ts)) = stats_total_components (snd ts)"
    by blast
  then have "counter_total (stats_component_types ?st) = stats_total_components ?st"
    unfolding h3 by simp
  with h0 h2 h3 show ?thesis by blast
qed

subsection \<open>The join\<close>

lemma exec_time_shaped:
  assumes "metrics_shaped et"
  shows "exec_time et repo tool
           = Inr (case metric_duration et repo tool of Some v \<Rightarrow> v | None \<Rightarrow> JNull)"
proof -
  from assms obtain repos where et: "et = JObj repos"
    and all: "list_all (\<lambda>re. case snd re of
                 JObj tools \<Rightarrow> list_all (\<lambda>te. isinstance_dict (snd te)) tools
               | _ \<Rightarrow> False) repos"
    by (auto simp: metrics_shaped_def split: json.splits)
  show ?thesis
  proof (cases "map_of repos repo")
    case None
    with et show ?thesis by (simp add: exec_time_def metric_duration_def)
  next
    case (Some v)
    then have "(repo, v) \<in> set repos" by (rule map_of_SomeD)
    with all have "case v of
                 JObj tools \<Rightarrow> list_all (\<lambda>te. isinstance_dict (snd te)) tools
               | _ \<Rightarrow> False"
      by (force simp: list_all_iff)
    then obtain tools where v: "v = JObj tools"
      and allt: "list_all (\<lambda>te. isinstance_dict (snd te)) tools"
      by (cases v) auto
    show ?thesis
    proof (cases "map_of tools tool")
      case None
      with et Some v show ?thesis by (simp add: exec_time_def metric_duration_def)
    next
      case (Some m)
      then have "(tool, m) \<in> set tools" by (rule map_of_SomeD)
      with allt have "py_type m = PyDict"
        by (force simp: list_all_iff isinstance_dict_def)
      then obtain entry where "m = JObj entry"
        using py_type_dictD by blast
      with et \<open>map_of repos repo = Some v\<close> v Some show ?thesis
        by (simp add: exec_time_def metric_duration_def split: option.splits)
    qed
  qed
qed

lemma tool_rows_shaped:
  assumes "metrics_shaped et"
  shows "tool_rows et repo (case sizes repo of Some p \<Rightarrow> p | None \<Rightarrow> (JNull, JNull)) td
           = Inr (map (joined_row et sizes repo) td)"
proof (induction td)
  case Nil
  then show ?case by simp
next
  case (Cons x td)
  obtain tool data where x: "x = (tool, data)" by (cases x)
  show ?case
    using Cons x
    by (simp add: exec_time_shaped [OF assms] joined_row_def split: option.splits)
qed

lemma join_rows_shaped:
  assumes "metrics_shaped et"
  shows "join_rows cd et sizes
           = Inr (concat (map (\<lambda>rt. map (joined_row et sizes (fst rt)) (snd rt)) cd))"
proof (induction cd)
  case Nil
  then show ?case by simp
next
  case (Cons x cd)
  obtain repo td where x: "x = (repo, td)" by (cases x)
  show ?case using Cons x by (simp add: tool_rows_shaped [OF assms])
qed

lemma joined_rows_pairs:
  "map (\<lambda>r. (Repository r, Tool r))
       (concat (map (\<lambda>rt. map (joined_row et sizes (fst rt)) (snd rt)) cd)) = pairs_of cd"
  by (induction cd) (simp_all add: pairs_of_def joined_row_def)

lemma fst_pairs_of: "p \<in> set (pairs_of cd) \<Longrightarrow> fst p \<in> fst ` set cd"
  by (force simp: pairs_of_def)

lemma distinct_pairs_of: "dict_inv cd \<Longrightarrow> distinct (pairs_of cd)"
proof (induction cd)
  case Nil
  then show ?case by (simp add: pairs_of_def)
next
  case (Cons x cd)
  have unf: "pairs_of (x # cd) = map (\<lambda>ta. (fst x, fst ta)) (snd x) @ pairs_of cd"
    by (simp add: pairs_of_def)
  from Cons.prems have inv: "dict_inv cd" and dx: "distinct (map fst (snd x))"
    and nx: "fst x \<notin> fst ` set cd"
    by (auto simp: dict_inv_def)
  have "distinct (map (\<lambda>ta. (fst x, fst ta)) (snd x))"
    using dx by (simp add: distinct_map inj_on_def)
  moreover have "set (map (\<lambda>ta. (fst x, fst ta)) (snd x)) \<inter> set (pairs_of cd) = {}"
    using nx fst_pairs_of [of _ cd] by fastforce
  ultimately show ?case using Cons.IH [OF inv] by (simp add: unf)
qed

lemma joined_rows_fields:
  assumes "r \<in> set (concat (map (\<lambda>rt. map (joined_row et sizes (fst rt)) (snd rt)) cd))"
  shows "Execution_Time r = (case metric_duration et (Repository r) (Tool r) of
                               Some v \<Rightarrow> v | None \<Rightarrow> JNull)
       \<and> (Repository_Size r, Java_Size r)
           = (case sizes (Repository r) of Some p \<Rightarrow> p | None \<Rightarrow> (JNull, JNull))"
  using assms by (auto simp: joined_row_def split: option.splits)

text \<open>
  Where every metrics entry is a dict, the join returns, with exactly one row for each
  (repository, tool) pair of the analysis data, in order; the row's
  \<^verbatim>\<open>Execution_Time\<close> is the \<^verbatim>\<open>duration\<close> of the metrics entry of its repository and
  tool and \<^verbatim>\<open>None\<close> when there is none, and its sizes are those of the size lookup
  and \<^verbatim>\<open>None\<close> when the repository is not in it.
\<close>

lemma join_rows_on_shaped_metrics:
  assumes "dict_inv cd" and "metrics_shaped et"
  shows "\<exists>rows. join_rows cd et sizes = Inr rows
           \<and> map (\<lambda>r. (Repository r, Tool r)) rows = pairs_of cd
           \<and> distinct (pairs_of cd)
           \<and> (\<forall>r \<in> set rows.
                 Execution_Time r = (case metric_duration et (Repository r) (Tool r) of
                                       Some v \<Rightarrow> v | None \<Rightarrow> JNull)
               \<and> (Repository_Size r, Java_Size r)
                   = (case sizes (Repository r) of Some p \<Rightarrow> p | None \<Rightarrow> (JNull, JNull)))"
  using join_rows_shaped [OF assms(2), of cd sizes] joined_rows_pairs [of et sizes cd]
    distinct_pairs_of [OF assms(1)] joined_rows_fields [of _ et sizes cd]
  by blast

lemma join_rows_on_shaped_metrics_example:
  "dict_inv [(''repoA'', [(''cdxgen'', \<lparr>total_components = 0, is_empty = True,
                                         component_types = [], error = None\<rparr>)])]
   \<and> metrics_shaped (JObj [(''repoA'', JObj [(''cdxgen'',
         JObj [(''duration'', JFloat (3/2)), (''url'', JStr ''u'')])])])
   \<and> (\<exists>rows. join_rows [(''repoA'', [(''cdxgen'', \<lparr>total_components = 0, is_empty = True,
                                         component_types = [], error = None\<rparr>)])]
          (JObj [(''repoA'', JObj [(''cdxgen'',
             JObj [(''duration'', JFloat (3/2)), (''url'', JStr ''u'')])])])
          [''repoB'' \<mapsto> (JInt 100, JNull)] = Inr rows
        \<and> map (\<lambda>r. (Repository r, Tool r)) rows
            = pairs_of [(''repoA'', [(''cdxgen'', \<lparr>total_components = 0, is_empty = True,
                                         component_types = [], error = None\<rparr>)])])"
proof -
  have h1: "dict_inv [(''repoA'', [(''cdxgen'', \<lparr>total_components = 0, is_empty = True,
                                         component_types = [], error = None\<rparr>)])]"
    by code_simp
  have h2: "metrics_shaped (JObj [(''repoA'', JObj [(''cdxgen'',
         JObj [(''duration'', JFloat (3/2)), (''url'', JStr ''u'')])])])"
    by code_simp
  from join_rows_on_shaped_metrics [OF h1 h2, of "[''repoB'' \<mapsto> (JInt 100, JNull)]"] h1 h2
  show ?thesis by blast
qed

text \<open>
  Claim C7 says that the join gives one row for every (repository, tool) pair, with
  \<^verbatim>\<open>Execution_Time\<close> \<^verbatim>\<open>None\<close> where the metrics hold no duration, and that missing
  metrics never make the report fail. The code does not do so when the metrics hold
  \<^verbatim>\<open>null\<close> for a tool, as in \<^verbatim>\<open>{"repoA": {"cdxgen": null}}\<close>: line 199 skips the
  entry and gives \<^verbatim>\<open>None\<close>, but the lookup of line 233 raises on it, and with it the
  whole join.
\<close>

theorem null_metrics_entry_breaks_join:
  "first_url (JObj [(''cdxgen'', JNull)]) = Inr JNull
   \<and> exec_time (JObj [(''repoA'', JObj [(''cdxgen'', JNull)])]) ''repoA'' ''cdxgen''
       = Inl (NoAttribute PyNone ''get'')
   \<and> join_rows [(''repoA'', [(''cdxgen'', \<lparr>total_components = 0, is_empty = True,
                                            component_types = [], error = None\<rparr>)])]
         (JObj [(''repoA'', JObj [(''cdxgen'', JNull)])])
         (map_of [])
       = Inl (NoAttribute PyNone ''get'')"
  by (simp add: first_url_def isinstance_dict_def exec_time_def)

subsection \<open>The export and its loader\<close>

lemma py_eq_JStr: "py_eq (JStr s) k = (JStr s = k)"
  by (cases k) (auto simp: py_eq_def)

lemma list_ex_py_eq_JStr: "list_ex (py_eq (JStr s)) ks = (JStr s \<in> set ks)"
  by (induction ks) (auto simp: py_eq_JStr)

lemma counter_get_JStr:
  "counter_get c (JStr s) = (case map_of c (JStr s) of Some n \<Rightarrow> n | None \<Rightarrow> 0)"
  by (induction c) (auto simp: py_eq_JStr)

lemma map_of_counter_set_JStr:
  "map_of (counter_set (JStr s) n c) = (map_of c)(JStr s \<mapsto> n)"
  by (induction c) (auto simp: py_eq_JStr fun_eq_iff)

lemma strip_all_absent: "\<not> contains pat s \<Longrightarrow> strip_all pat s = s"
  by (induction s) auto

lemma strip_all_prefix: "pat \<noteq> [] \<Longrightarrow> strip_all pat (pat @ s) = strip_all pat s"
  by (cases pat) (simp_all add: startswith_def)

lemma strip_Type_label: "\<not> contains ''Type_'' s \<Longrightarrow> strip_all ''Type_'' (''Type_'' @ s) = s"
  using strip_all_prefix [of "''Type_''" s] by (simp add: strip_all_absent)

lemma startswith_label: "startswith (''Type_'' @ s) ''Type_''"
  by (simp add: startswith_def)

lemma plain_keyE: "plain_key k \<Longrightarrow> \<exists>s. k = JStr s \<and> \<not> contains ''Type_'' s"
  by (cases k) (auto simp: plain_key_def)

lemma rebuild_fixed:
  "rebuild_types (zip fixed_columns xs @ rest) acc = rebuild_types rest acc"
proof -
  have "\<not> startswith col ''Type_''" if "col \<in> set fixed_columns" for col
    using that by (auto simp: fixed_columns_def startswith_def)
  then have "rebuild_types (zip cols xs @ rest) acc = rebuild_types rest acc"
    if "set cols \<subseteq> set fixed_columns" for cols
    using that
  proof (induction cols arbitrary: xs)
    case Nil
    then show ?case by simp
  next
    case (Cons c cols)
    then show ?case by (cases xs) auto
  qed
  then show ?thesis by blast
qed

lemma rebuild_type_columns:
  assumes "list_all plain_key keys"
  shows "rebuild_types
           (zip (map (\<lambda>k. ''Type_'' @ py_format num_str k) keys)
                (map (\<lambda>k. Some (JInt (counter_get c k))) keys)) acc
         = Inr (fold (\<lambda>k a. if 0 < counter_get c k then counter_set k (counter_get c k) a else a)
                  keys acc)"
  using assms
proof (induction keys arbitrary: acc)
  case Nil
  then show ?case by simp
next
  case (Cons k keys)
  then obtain s where k: "k = JStr s" and s: "\<not> contains ''Type_'' s"
    using plain_keyE by auto
  from Cons have IH: "\<And>acc. rebuild_types
           (zip (map (\<lambda>k. ''Type_'' @ py_format num_str k) keys)
                (map (\<lambda>k. Some (JInt (counter_get c k))) keys)) acc
         = Inr (fold (\<lambda>k a. if 0 < counter_get c k then counter_set k (counter_get c k) a else a)
                  keys acc)"
    by simp
  show ?case
    using k s IH by (simp add: startswith_def strip_all_absent)
qed

lemma map_of_fold_set:
  assumes "list_all plain_key keys"
  shows "map_of (fold (\<lambda>k a. if 0 < counter_get c k then counter_set k (counter_get c k) a else a)
                   keys acc) k
         = (if k \<in> set keys \<and> 0 < counter_get c k then Some (counter_get c k)
            else map_of acc k)"
  using assms
proof (induction keys arbitrary: acc)
  case Nil
  then show ?case by simp
next
  case (Cons x keys)
  then obtain s where x: "x = JStr s" using plain_keyE by auto
  from Cons have IH: "\<And>acc. map_of (fold (\<lambda>k a. if 0 < counter_get c k
                          then counter_set k (counter_get c k) a else a) keys acc) k
         = (if k \<in> set keys \<and> 0 < counter_get c k then Some (counter_get c k)
            else map_of acc k)"
    by simp
  show ?case
    by (simp add: IH x map_of_counter_set_JStr)
qed

lemma map_of_positive_counts:
  assumes "distinct (map fst c)"
  shows "map_of (positive_counts c) k
           = (case map_of c k of Some n \<Rightarrow> if 0 < n then Some n else None | None \<Rightarrow> None)"
  using assms
proof (induction c)
  case Nil
  then show ?case by (simp add: positive_counts_def)
next
  case (Cons kv c)
  then have IH: "map_of (positive_counts c) k
           = (case map_of c k of Some n \<Rightarrow> if 0 < n then Some n else None | None \<Rightarrow> None)"
    by simp
  obtain k' n where kv: "kv = (k', n)" by (cases kv)
  from Cons.prems kv have "map_of c k' = None"
    by (simp add: map_of_eq_None_iff)
  then show ?case
    using IH kv by (auto simp: positive_counts_def)
qed

lemma add_keys_subset:
  "set (fold (\<lambda>kv ks'. if list_ex (py_eq (fst kv)) ks' then ks' else ks' @ [fst kv]) c ks)
     \<subseteq> set ks \<union> fst ` set c"
proof (induction c arbitrary: ks)
  case Nil
  then show ?case by simp
next
  case (Cons kv c)
  let ?ks = "if list_ex (py_eq (fst kv)) ks then ks else ks @ [fst kv]"
  have "set ?ks \<subseteq> set ks \<union> {fst kv}" by auto
  with Cons.IH [of ?ks] show ?case by auto
qed

lemma add_keys_mono:
  "set ks \<subseteq> set (fold (\<lambda>kv ks'. if list_ex (py_eq (fst kv)) ks' then ks' else ks' @ [fst kv]) c ks)"
proof (induction c arbitrary: ks)
  case Nil
  then show ?case by simp
next
  case (Cons kv c)
  have "set ks \<subseteq> set (if list_ex (py_eq (fst kv)) ks then ks else ks @ [fst kv])"
    by auto
  also have "\<dots> \<subseteq> set (fold (\<lambda>kv ks'. if list_ex (py_eq (fst kv)) ks' then ks'
                  else ks' @ [fst kv]) c (if list_ex (py_eq (fst kv)) ks then ks else ks @ [fst kv]))"
    by (rule Cons.IH)
  finally show ?case by simp
qed

lemma add_keys_covers:
  assumes "JStr s \<in> fst ` set c"
  shows "JStr s \<in> set (fold (\<lambda>kv ks'. if list_ex (py_eq (fst kv)) ks' then ks'
                                else ks' @ [fst kv]) c ks)"
  using assms
proof (induction c arbitrary: ks)
  case Nil
  then show ?case by simp
next
  case (Cons kv c)
  let ?ks = "if list_ex (py_eq (fst kv)) ks then ks else ks @ [fst kv]"
  show ?case
  proof (cases "fst kv = JStr s")
    case True
    then have "JStr s \<in> set ?ks"
      by (auto simp: list_ex_py_eq_JStr)
    then show ?thesis
      using add_keys_mono [of ?ks c] by auto
  next
    case False
    with Cons.prems have "JStr s \<in> fst ` set c" by auto
    from Cons.IH [OF this, of ?ks] show ?thesis by simp
  qed
qed

lemma type_keys_fold_subset:
  "set (fold (\<lambda>r ks. fold (\<lambda>kv ks'. if list_ex (py_eq (fst kv)) ks' then ks'
                                  else ks' @ [fst kv]) (Component_Types r) ks) df ks)
     \<subseteq> set ks \<union> (\<Union>r \<in> set df. fst ` set (Component_Types r))"
proof (induction df arbitrary: ks)
  case Nil
  then show ?case by simp
next
  case (Cons r df)
  show ?case
    using Cons.IH [of "fold (\<lambda>kv ks'. if list_ex (py_eq (fst kv)) ks' then ks'
                                  else ks' @ [fst kv]) (Component_Types r) ks"]
      add_keys_subset [of "Component_Types r" ks]
    by auto
qed

lemma type_keys_fold_mono:
  "set ks \<subseteq> set (fold (\<lambda>r ks. fold (\<lambda>kv ks'. if list_ex (py_eq (fst kv)) ks' then ks'
                                  else ks' @ [fst kv]) (Component_Types r) ks) df ks)"
proof (induction df arbitrary: ks)
  case Nil
  then show ?case by simp
next
  case (Cons r df)
  show ?case
    using Cons.IH [of "fold (\<lambda>kv ks'. if list_ex (py_eq (fst kv)) ks' then ks'
                                  else ks' @ [fst kv]) (Component_Types r) ks"]
      add_keys_mono [of ks "Component_Types r"]
    by auto
qed

lemma type_keys_fold_covers:
  assumes "r \<in> set df" and "JStr s \<in> fst ` set (Component_Types r)"
  shows "JStr s \<in> set (fold (\<lambda>r ks. fold (\<lambda>kv ks'. if list_ex (py_eq (fst kv)) ks' then ks'
                                  else ks' @ [fst kv]) (Component_Types r) ks) df ks)"
  using assms
proof (induction df arbitrary: ks)
  case Nil
  then show ?case by simp
next
  case (Cons x df)
  let ?ks = "fold (\<lambda>kv ks'. if list_ex (py_eq (fst kv)) ks' then ks'
                                  else ks' @ [fst kv]) (Component_Types x) ks"
  show ?case
  proof (cases "r = x")
    case True
    with Cons.prems have "JStr s \<in> set ?ks"
      using add_keys_covers by blast
    then show ?thesis
      using type_keys_fold_mono [of ?ks df] by auto
  next
    case False
    with Cons.prems have "r \<in> set df" by auto
    from Cons.IH [OF this Cons.prems(2), of ?ks] show ?thesis by simp
  qed
qed

lemma type_keys_plain:
  assumes "\<forall>r \<in> set df. plain_type_names (Component_Types r)"
  shows "list_all plain_key (type_keys df)"
proof -
  have "k \<in> set (type_keys df) \<Longrightarrow> plain_key k" for k
    using type_keys_fold_subset [of df "[]"] assms
    unfolding type_keys_def plain_type_names_def list_all_iff by fastforce
  then show ?thesis by (simp add: list_all_iff)
qed

lemma type_keys_covers:
  assumes "\<forall>r \<in> set df. plain_type_names (Component_Types r)"
    and "r \<in> set df" and "k \<in> fst ` set (Component_Types r)"
  shows "k \<in> set (type_keys df)"
proof -
  from assms have "plain_key k"
    unfolding plain_type_names_def list_all_iff by fastforce
  then obtain s where "k = JStr s" using plain_keyE by blast
  with assms(2,3) have "JStr s \<in> fst ` set (Component_Types r)" by simp
  from type_keys_fold_covers [OF assms(2) this, of "[]"] \<open>k = JStr s\<close>
  show ?thesis by (simp add: type_keys_def)
qed

lemma load_rows_map:
  assumes "\<forall>r \<in> set rs. rebuild_types (zip cols (f r)) [] = Inr (g r)"
  shows "load_rows cols (map f rs) = Inr (map g rs)"
  using assms by (induction rs) simp_all

lemma load_export:
  assumes "\<forall>r \<in> set df. plain_type_names (Component_Types r)"
  shows "load_and_visualize_csv (export_to_csv num_str df)
           = Inr (map (\<lambda>r. rebuilt (type_keys df) (Component_Types r)) df)"
proof -
  let ?keys = "type_keys df"
  let ?labels = "map (\<lambda>k. ''Type_'' @ py_format num_str k) ?keys"
  let ?fixed = "\<lambda>r. [Some (JStr (Repository r)), Some (JStr (Tool r)),
                      Some (JInt (Total_Components r)), Some (JBool (Is_Empty r)),
                      cell_of (Execution_Time r), cell_of (Repository_Size r),
                      cell_of (Java_Size r)]"
  let ?typed = "\<lambda>r. map (\<lambda>k. Some (JInt (counter_get (Component_Types r) k))) ?keys"
  have plain: "list_all plain_key ?keys"
    using assms by (rule type_keys_plain)
  have row: "rebuild_types (zip (fixed_columns @ ?labels) (?fixed r @ ?typed r)) []
               = Inr (rebuilt ?keys (Component_Types r))" for r
  proof -
    have "length fixed_columns = length (?fixed r)"
      by (simp add: fixed_columns_def)
    then have "zip (fixed_columns @ ?labels) (?fixed r @ ?typed r)
                 = zip fixed_columns (?fixed r) @ zip ?labels (?typed r)"
      by (rule zip_append)
    then show ?thesis
      using rebuild_type_columns [OF plain, of num_str "Component_Types r" "[]"]
      by (simp only: rebuild_fixed rebuilt_def)
  qed
  have "load_rows (fixed_columns @ ?labels) (map (\<lambda>r. ?fixed r @ ?typed r) df)
          = Inr (map (\<lambda>r. rebuilt ?keys (Component_Types r)) df)"
    by (rule load_rows_map) (intro ballI row)
  then show ?thesis
    by (simp add: load_and_visualize_csv_def export_to_csv_def Let_def)
qed

lemma rebuilt_positive:
  assumes all: "\<forall>r \<in> set df. plain_type_names (Component_Types r)" and r: "r \<in> set df"
  shows "map_of (rebuilt (type_keys df) (Component_Types r))
           = map_of (positive_counts (Component_Types r))"
proof
  fix k
  let ?c = "Component_Types r"
  have plain: "list_all plain_key (type_keys df)"
    using all by (rule type_keys_plain)
  have dist: "distinct (map fst ?c)"
    using all r by (simp add: plain_type_names_def)
  have lhs: "map_of (rebuilt (type_keys df) ?c) k
               = (if k \<in> set (type_keys df) \<and> 0 < counter_get ?c k
                  then Some (counter_get ?c k) else None)"
    using map_of_fold_set [OF plain, of ?c "[]" k] by (simp add: rebuilt_def)
  have rhs: "map_of (positive_counts ?c) k
               = (case map_of ?c k of Some n \<Rightarrow> if 0 < n then Some n else None | None \<Rightarrow> None)"
    using dist by (rule map_of_positive_counts)
  show "map_of (rebuilt (type_keys df) ?c) k = map_of (positive_counts ?c) k"
  proof (cases "k \<in> set (type_keys df)")
    case True
    with plain have "plain_key k" by (simp add: list_all_iff)
    then obtain s where "k = JStr s" using plain_keyE by blast
    then show ?thesis
      unfolding lhs rhs using True by (simp add: counter_get_JStr split: option.splits)
  next
    case False
    have "map_of ?c k = None"
    proof (rule ccontr)
      assume "map_of ?c k \<noteq> None"
      then have "k \<in> fst ` set ?c"
        by (simp add: map_of_eq_None_iff)
      with all r have "k \<in> set (type_keys df)" by (rule type_keys_covers)
      with False show False by simp
    qed
    with False show ?thesis by (simp add: lhs rhs)
  qed
qed

text \<open>
  Claim C9, as stated for every table whose type names do not contain \<^verbatim>\<open>Type_\<close>,
  fails for a type that is not a string: the component \<^verbatim>\<open>{"type": null}\<close> is counted
  under the key \<^verbatim>\<open>None\<close>, the export labels its column \<^verbatim>\<open>Type_None\<close>, and the
  loader rebuilds the string key \<^verbatim>\<open>'None'\<close>, which is another key.
\<close>

theorem null_type_key_not_recovered:
  "analyze_single_cbom (JObj [(''components'', JArr [JObj [(''type'', JNull)]])]) ''cdxgen''
     = Inr \<lparr>total_components = 1, is_empty = False,
            component_types = [(JNull, 1)], error = None\<rparr>
   \<and> load_and_visualize_csv (export_to_csv example_num_str
         [\<lparr>Repository = ''a'', Tool = ''cdxgen'', Total_Components = 1,
            Is_Empty = False, Execution_Time = JNull, Component_Types = [(JNull, 1)],
            Repository_Size = JNull, Java_Size = JNull\<rparr>])
       = Inr [[(JStr ''None'', 1)]]
   \<and> map_of [(JStr ''None'', 1 :: int)] JNull = None
   \<and> map_of (positive_counts [(JNull, 1)]) JNull = Some 1"
proof -
  have a: "analyze_single_cbom (JObj [(''components'', JArr [JObj [(''type'', JNull)]])]) ''cdxgen''
     = Inr \<lparr>total_components = 1, is_empty = False,
            component_types = [(JNull, 1)], error = None\<rparr>"
    by code_simp
  have b: "load_and_visualize_csv (export_to_csv example_num_str
         [\<lparr>Repository = ''a'', Tool = ''cdxgen'', Total_Components = 1,
            Is_Empty = False, Execution_Time = JNull, Component_Types = [(JNull, 1)],
            Repository_Size = JNull, Java_Size = JNull\<rparr>])
       = Inr [[(JStr ''None'', 1)]]"
    by code_simp
  have c: "map_of [(JStr ''None'', 1 :: int)] JNull = None"
    by simp
  have d: "map_of (positive_counts [(JNull, 1)]) JNull = Some 1"
    by (simp add: positive_counts_def)
  from a b c d show ?thesis by blast
qed

text \<open>
  Claim C9, amended. For every table whose type names are strings that do not contain the
  substring \<^verbatim>\<open>Type_\<close>, loading the frame that \<^verbatim>\<open>export_to_csv\<close> builds gives, row
  by row, a counter equal as a dict to the strictly positive counts of the row's counter.
\<close>

theorem export_then_load_positive_counts:
  assumes "\<forall>r \<in> set df. plain_type_names (Component_Types r)"
  shows "\<exists>cs. load_and_visualize_csv (export_to_csv num_str df) = Inr cs
           \<and> list_all2 (\<lambda>c r. map_of c = map_of (positive_counts (Component_Types r))) cs df"
proof -
  have "list_all2 (\<lambda>c r. map_of c = map_of (positive_counts (Component_Types r)))
          (map (\<lambda>r. rebuilt (type_keys df) (Component_Types r)) df) df"
    using rebuilt_positive [OF assms]
    by (simp add: list_all2_map1 list_all2_same)
  with load_export [OF assms, of num_str] show ?thesis by blast
qed

theorem export_then_load_positive_counts_witness:
  "plain_type_names [(JStr ''library'', 1), (JStr ''x'', 2)]
   \<and> plain_type_names [(JStr ''y'', 0), (JStr ''x'', 5)]
   \<and> plain_type_names []
   \<and> (\<exists>cs. load_and_visualize_csv (export_to_csv (\<lambda>v. [])
          [\<lparr>Repository = ''a'', Tool = ''cdxgen'', Total_Components = 0,
             Is_Empty = True, Execution_Time = JNull, Component_Types = [],
             Repository_Size = JNull, Java_Size = JNull\<rparr>,
           \<lparr>Repository = ''b'', Tool = ''cdxgen'', Total_Components = 3,
             Is_Empty = False, Execution_Time = JFloat (3 / 2),
             Component_Types = [(JStr ''library'', 1), (JStr ''x'', 2)],
             Repository_Size = JInt 100, Java_Size = JNull\<rparr>,
           \<lparr>Repository = ''c'', Tool = ''cbomkit'', Total_Components = 5,
             Is_Empty = False, Execution_Time = JNull,
             Component_Types = [(JStr ''y'', 0), (JStr ''x'', 5)],
             Repository_Size = JNull, Java_Size = JNull\<rparr>]) = Inr cs
        \<and> list_all2 (\<lambda>c r. map_of c = map_of (positive_counts (Component_Types r))) cs
          [\<lparr>Repository = ''a'', Tool = ''cdxgen'', Total_Components = 0,
             Is_Empty = True, Execution_Time = JNull, Component_Types = [],
             Repository_Size = JNull, Java_Size = JNull\<rparr>,
           \<lparr>Repository = ''b'', Tool = ''cdxgen'', Total_Components = 3,
             Is_Empty = False, Execution_Time = JFloat (3 / 2),
             Component_Types = [(JStr ''library'', 1), (JStr ''x'', 2)],
             Repository_Size = JInt 100, Java_Size = JNull\<rparr>,
           \<lparr>Repository = ''c'', Tool = ''cbomkit'', Total_Components = 5,
             Is_Empty = False, Execution_Time = JNull,
             Component_Types = [(JStr ''y'', 0), (JStr ''x'', 5)],
             Repository_Size = JNull, Java_Size = JNull\<rparr>])"
proof -
  let ?df = "[\<lparr>Repository = ''a'', Tool = ''cdxgen'', Total_Components = 0,
             Is_Empty = True, Execution_Time = JNull, Component_Types = [],
             Repository_Size = JNull, Java_Size = JNull\<rparr>,
           \<lparr>Repository = ''b'', Tool = ''cdxgen'', Total_Components = 3,
             Is_Empty = False, Execution_Time = JFloat (3 / 2),
             Component_Types = [(JStr ''library'', 1), (JStr ''x'', 2)],
             Repository_Size = JInt 100, Java_Size = JNull\<rparr>,
           \<lparr>Repository = ''c'', Tool = ''cbomkit'', Total_Components = 5,
             Is_Empty = False, Execution_Time = JNull,
             Component_Types = [(JStr ''y'', 0), (JStr ''x'', 5)],
             Repository_Size = JNull, Java_Size = JNull\<rparr>]"
  have p1: "plain_type_names [(JStr ''library'', 1), (JStr ''x'', 2)]" by code_simp
  have p2: "plain_type_names [(JStr ''y'', 0), (JStr ''x'', 5)]" by code_simp
  have p3: "plain_type_names []" by code_simp
  from p1 p2 p3 have h: "\<forall>r \<in> set ?df. plain_type_names (Component_Types r)"
    by simp
  from export_then_load_positive_counts [OF h, of "\<lambda>v. []"] p1 p2 p3
  show ?thesis by blast
qed

end
